theory Spec2Isabelle
  imports
    Main
    "HOL-Library.Multiset"
    "HOL-Library.Char_ord"
    "HOL-Library.List_Lexorder"
    "HOL-Library.Product_Lexorder"
begin

section \<open>svg\_to\_pdf.py: data\<close>

text \<open>
  Python \<open>bytes\<close> and \<open>str\<close> values are character lists. A task in the queue and a result
  in the output list are both the tuples of the source, \<open>(page_number, data)\<close>; page numbers
  are Python integers. The orders on \<open>char\<close>, on lists and on pairs that are imported here are
  byte value, lexicographic order (a proper prefix is smaller) and lexicographic order on
  tuples: the comparisons Python makes on \<open>bytes\<close> and on tuples, which is what
  \<open>output_list.sort()\<close> uses.
\<close>

type_synonym bytes = string
type_synonym task = "int \<times> bytes"
type_synonym result = "int \<times> bytes"

definition lines :: "string list \<Rightarrow> string" where
  "lines ls = concat (map (\<lambda>l. l @ [CHR 0x0A]) (butlast ls)) @ last ls"

definition BLANK_PDF_PAGE :: bytes where
  "BLANK_PDF_PAGE = lines
    [''%PDF-1.4'',
     ''1 0 obj<</Type/Catalog/Pages 2 0 R>>endobj'',
     ''2 0 obj<</Type/Pages/Count 1/Kids[3 0 R]>>endobj'',
     ''3 0 obj<</Type/Page/MediaBox[0 0 595.276 841.890]/Parent 2 0 R/Resources<<>>>>endobj'',
     ''xref'',
     ''0 4'',
     ''0000000000 65535 f '',
     ''0000000009 00000 n '',
     ''0000000052 00000 n '',
     ''0000000101 00000 n '',
     ''trailer<</Size 4/Root 1 0 R>>'',
     ''startxref'',
     ''186'',
     ''%%EOF'']"

text \<open>
  What the program prints, one constructor per \<open>print\<close> of the source that reports an
  event (the progress line of the worker loop, which is overwritten on the terminal, is left
  out). The text of a caught exception is produced by the library and is not kept.
\<close>

datatype message =
    NoSequenceNumber string string
  | ErrorConverting
  | ErrorMerger int
  | CreatedWithErrors string nat nat "int list"
  | CreatedSuccessfully string nat

text \<open>
  The exceptions that leave a function of the program: the two \<open>TypeError\<close>s (with their
  messages) and the \<open>ValueError\<close> of \<open>int\<close>, the \<open>re.error\<close> of \<open>re.compile\<close>, the
  \<open>BadZipFile\<close> of \<open>ZipFile(path)\<close>, and whatever \<open>merger.write\<close> raises (\<open>PdfReadError\<close> on
  a blob that it cannot read, \<open>OSError\<close> on the file).
\<close>

datatype error =
    TypeError string
  | ValueError
  | ReError
  | BadZipFile
  | MergerWriteError

section \<open>write\_pdf\<close>

text \<open>
  \<open>PdfMerger\<close> is an external library. Its state is the list of page blobs appended so far;
  whether \<open>merger.append\<close> raises on a blob is the parameter \<open>accepts\<close>. The loop of
  \<open>write_pdf\<close> runs over the sorted list; a blob that is rejected is reported and skipped.
  Whether \<open>merger.write(file_name)\<close> returns, for the blobs appended, is the parameter
  \<open>writes\<close>: the call is outside the \<open>try\<close>, so its exception leaves \<open>write_pdf\<close>.
\<close>

record assembly =
  merger :: "bytes list"
  error_page :: "int list"
  console :: "message list"

fun append_pages :: "(bytes \<Rightarrow> bool) \<Rightarrow> result list \<Rightarrow> assembly \<Rightarrow> assembly" where
  "append_pages accepts [] a = a"
| "append_pages accepts ((i, pdf) # rest) a =
     append_pages accepts rest
       (if accepts pdf
        then a\<lparr>merger := merger a @ [pdf],
               error_page := (if pdf = BLANK_PDF_PAGE then error_page a @ [i] else error_page a)\<rparr>
        else a\<lparr>error_page := error_page a @ [i],
               console := console a @ [ErrorMerger i]\<rparr>)"

text \<open>
  The outcome of \<open>write_pdf\<close> when it returns: the file written (its name and the pages
  merged into it, in order), the local list \<open>error_page\<close>, and what was printed. With an
  empty list the body of the \<open>if\<close> is skipped: nothing is written and nothing is printed.
  When \<open>merger.write\<close> raises, neither \<open>merger.close\<close> nor the summary is reached; what the
  library has left at the path by then is not a merged document and is not kept here.
\<close>

record outcome =
  written :: "(string \<times> bytes list) option"
  error_pages :: "int list"
  printed :: "message list"

definition write_pdf ::
  "(bytes \<Rightarrow> bool) \<Rightarrow> (bytes list \<Rightarrow> string \<Rightarrow> bool) \<Rightarrow> result list \<Rightarrow> string
    \<Rightarrow> error + outcome" where
  "write_pdf accepts writes outputs file_name =
     (if outputs \<noteq> [] then
        (let a = append_pages accepts (sort outputs) \<lparr>merger = [], error_page = [], console = []\<rparr>
         in if writes (merger a) file_name then
              Inr \<lparr>written = Some (file_name, merger a),
                   error_pages = error_page a,
                   printed = console a @
                     [if error_page a \<noteq> []
                      then CreatedWithErrors file_name (length outputs) (length (error_page a))
                             (error_page a)
                      else CreatedSuccessfully file_name (length outputs)]\<rparr>
            else Inl MergerWriteError)
      else Inr \<lparr>written = None, error_pages = [], printed = []\<rparr>)"

section \<open>process\_files\<close>

text \<open>
  The file system and the libraries \<open>re\<close>, \<open>os\<close> and \<open>zipfile\<close> are outside the
  program; what \<open>process_files\<close> asks of them is the record \<open>env\<close>:
  \<^item> \<open>re_compiles p\<close>: \<open>re.compile(p)\<close> returns (it raises \<open>re.error\<close> otherwise);
  \<^item> \<open>findall p name\<close>: the list \<open>re.findall\<close> returns, whose elements are strings, or tuples
    when \<open>p\<close> has more than one group;
  \<^item> \<open>str_to_int s\<close>: the value of \<open>int(s)\<close> on a string, \<open>None\<close> when it raises
    \<open>ValueError\<close>;
  \<^item> \<open>isdir\<close>, \<open>is_zipfile\<close>: the two tests on the path, \<open>os.path.isdir\<close> and
    \<open>zipfile.is_zipfile\<close>;
  \<^item> \<open>zip_opens path\<close>: \<open>ZipFile(path, 'r')\<close> returns (it raises \<open>BadZipFile\<close> otherwise, which
    it does on an archive with a damaged central directory, although \<open>is_zipfile\<close> is true
    of it);
  \<^item> \<open>walk path\<close>: the files \<open>os.walk\<close> yields under a directory, in its order, each file
    name with the bytes read from it; \<open>zip_members path\<close>: the names of \<open>namelist()\<close>, in
    order, each with the bytes \<open>read\<close> returns;
  \<^item> \<open>basename\<close>, \<open>splitext_root\<close>: \<open>os.path.basename\<close> and the first component of
    \<open>os.path.splitext\<close>.
  Reading a listed file is taken to succeed.
\<close>

datatype pymatch = Str string | Tuple "string list"

record env =
  re_compiles :: "string \<Rightarrow> bool"
  findall :: "string \<Rightarrow> string \<Rightarrow> pymatch list"
  str_to_int :: "string \<Rightarrow> int option"
  isdir :: "string \<Rightarrow> bool"
  is_zipfile :: "string \<Rightarrow> bool"
  zip_opens :: "string \<Rightarrow> bool"
  walk :: "string \<Rightarrow> (string \<times> bytes) list"
  zip_members :: "string \<Rightarrow> (string \<times> bytes) list"
  basename :: "string \<Rightarrow> string"
  splitext_root :: "string \<Rightarrow> string"

text \<open>
  \<open>int(x)\<close> on an element of the list of matches: a tuple is a \<open>TypeError\<close> (its message is
  kept up to the words that name the type of the argument).
\<close>

definition int_type_error :: error where
  "int_type_error =
     TypeError ''int() argument must be a string, a bytes-like object or a real number''"

fun py_int :: "env \<Rightarrow> pymatch \<Rightarrow> error + int" where
  "py_int e (Str s) = (case str_to_int e s of None \<Rightarrow> Inl ValueError | Some n \<Rightarrow> Inr n)"
| "py_int e (Tuple ss) = Inl int_type_error"

text \<open>
  The nested function \<open>page_number\<close>. Indexing the empty list with \<open>[-1]\<close> raises
  \<open>IndexError\<close>, the one exception that is caught: the page number is 0 and the warning is
  printed. Any exception of \<open>int\<close> leaves the function. The result is the page number with
  what was printed.
\<close>

definition page_number :: "env \<Rightarrow> string \<Rightarrow> string \<Rightarrow> error + int \<times> message list" where
  "page_number e file_name pattern =
     (case findall e pattern file_name of
        [] \<Rightarrow> Inr (0, [NoSequenceNumber file_name pattern])
      | m # ms \<Rightarrow> (case py_int e (last (m # ms)) of
                    Inl err \<Rightarrow> Inl err
                  | Inr n \<Rightarrow> Inr (n, [])))"

definition endswith :: "string \<Rightarrow> string \<Rightarrow> bool" where
  "endswith s suffix = (length suffix \<le> length s \<and> drop (length s - length suffix) s = suffix)"

text \<open>\<open>str.lower\<close>, on the letters A to Z (the only ones whose lower case is in \<open>.svg\<close>).\<close>

definition lower_char :: "char \<Rightarrow> char" where
  "lower_char c = (if CHR ''A'' \<le> c \<and> c \<le> CHR ''Z'' then char_of (of_char c + (32::nat)) else c)"

definition lower :: "string \<Rightarrow> string" where
  "lower s = map lower_char s"

text \<open>
  The two loops of \<open>process_files\<close> differ in the test on the name only (\<open>keep\<close>); each puts
  \<open>(page_number(file, pattern), data)\<close> on the queue for every name kept. The state is the
  queue and what has been printed.
\<close>

fun put_files ::
  "env \<Rightarrow> string \<Rightarrow> (string \<Rightarrow> bool) \<Rightarrow> (string \<times> bytes) list \<Rightarrow> task list \<times> message list
    \<Rightarrow> error + task list \<times> message list" where
  "put_files e pattern keep [] st = Inr st"
| "put_files e pattern keep ((file, svg_data) # rest) (q, out) =
     (if keep file then
        (case page_number e file pattern of
           Inl err \<Rightarrow> Inl err
         | Inr (n, w) \<Rightarrow> put_files e pattern keep rest (q @ [(n, svg_data)], out @ w))
      else put_files e pattern keep rest (q, out))"

record enumeration =
  pdf_file_name :: string
  number_of_svg_files :: nat
  queue :: "task list"
  warnings :: "message list"

definition default_pattern :: string where
  "default_pattern = [CHR 0x5C, CHR ''d'', CHR ''+'']"

text \<open>\<open>if not pattern: pattern = r'\d+'\<close>: \<open>None\<close> and the empty string are both false.\<close>

definition pattern_or_default :: "string option \<Rightarrow> string" where
  "pattern_or_default pattern_arg =
     (case pattern_arg of
        None \<Rightarrow> default_pattern
      | Some p \<Rightarrow> if p = [] then default_pattern else p)"

definition process_files :: "env \<Rightarrow> string \<Rightarrow> task list \<Rightarrow> string option \<Rightarrow> error + enumeration" where
  "process_files e path_to_files svg_queue pattern_arg =
     (let pattern = pattern_or_default pattern_arg
      in if \<not> re_compiles e pattern then Inl ReError
         else if isdir e path_to_files then
           (case put_files e pattern (\<lambda>file. endswith file ''.svg'') (walk e path_to_files) (svg_queue, []) of
              Inl err \<Rightarrow> Inl err
            | Inr (q, out) \<Rightarrow>
                Inr \<lparr>pdf_file_name = basename e path_to_files @ ''.pdf'',
                     number_of_svg_files = length q, queue = q, warnings = out\<rparr>)
         else if is_zipfile e path_to_files then
           (if zip_opens e path_to_files then
              (case put_files e pattern (\<lambda>file. endswith (lower file) ''.svg'')
                      (zip_members e path_to_files) (svg_queue, []) of
                 Inl err \<Rightarrow> Inl err
               | Inr (q, out) \<Rightarrow>
                   Inr \<lparr>pdf_file_name = splitext_root e (basename e path_to_files) @ ''.pdf'',
                        number_of_svg_files = length q, queue = q, warnings = out\<rparr>)
            else Inl BadZipFile)
         else Inl (TypeError ''Directory or zip file is required.''))"

section \<open>convert\_svg\_to\_pdf: the worker processes\<close>

text \<open>
  The renderer (\<open>svg2rlg\<close> followed by \<open>renderPDF.drawToString\<close>) is the parameter
  \<open>render\<close>: \<open>None\<close> when either call raises an \<open>Exception\<close>. The body of the loop after a
  task has been pulled:
\<close>

definition convert :: "(bytes \<Rightarrow> bytes option) \<Rightarrow> task \<Rightarrow> result \<times> message list" where
  "convert render t =
     (case t of (page_no, svg_data) \<Rightarrow>
        (case render svg_data of
           Some pdf_content \<Rightarrow> ((page_no, pdf_content), [])
         | None \<Rightarrow> ((page_no, BLANK_PDF_PAGE), [ErrorConverting])))"

text \<open>
  Several processes run \<open>convert_svg_to_pdf\<close> on one queue and one output list. Each is at
  one of four places: about to test \<open>svg_queue.qsize() > 0\<close>; inside the loop, about to call
  \<open>get_nowait\<close>; holding a pulled task, about to render it and append the result; returned.
  The operations of the queue and of the list proxy are atomic, and the processes interleave
  between them. An event names the process that moves next; \<open>PullEmpty\<close> is a call of
  \<open>get_nowait\<close> that raises \<open>Empty\<close> although the queue holds tasks (the race that the
  docstring describes). An event that names no process able to make that move changes nothing.
\<close>

datatype worker = AtWhile | AtGet | Converting task | Exited

datatype event = Advance nat | PullEmpty nat

record job =
  svg_queue :: "task list"
  output_list :: "result list"
  processes :: "worker list"
  job_console :: "message list"

fun convert_svg_to_pdf :: "(bytes \<Rightarrow> bytes option) \<Rightarrow> event \<Rightarrow> job \<Rightarrow> job" where
  "convert_svg_to_pdf render (Advance i) j =
     (if i < length (processes j) then
        (case processes j ! i of
           AtWhile \<Rightarrow>
             (if svg_queue j \<noteq> [] then j\<lparr>processes := (processes j)[i := AtGet]\<rparr>
              else j\<lparr>processes := (processes j)[i := Exited]\<rparr>)
         | AtGet \<Rightarrow>
             (case svg_queue j of
                [] \<Rightarrow> j\<lparr>processes := (processes j)[i := AtWhile]\<rparr>
              | t # q \<Rightarrow> j\<lparr>svg_queue := q, processes := (processes j)[i := Converting t]\<rparr>)
         | Converting t \<Rightarrow>
             j\<lparr>output_list := output_list j @ [fst (convert render t)],
               job_console := job_console j @ snd (convert render t),
               processes := (processes j)[i := AtWhile]\<rparr>
         | Exited \<Rightarrow> j)
      else j)"
| "convert_svg_to_pdf render (PullEmpty i) j =
     (if i < length (processes j) \<and> processes j ! i = AtGet
      then j\<lparr>processes := (processes j)[i := AtWhile]\<rparr>
      else j)"

definition run :: "(bytes \<Rightarrow> bytes option) \<Rightarrow> event list \<Rightarrow> job \<Rightarrow> job" where
  "run render schedule j = fold (convert_svg_to_pdf render) schedule j"

definition all_exited :: "job \<Rightarrow> bool" where
  "all_exited j = list_all (\<lambda>w. w = Exited) (processes j)"

section \<open>main\<close>

text \<open>
  \<open>main\<close>, with the path and the pattern that it has once the command line is read,
  enumerates, starts \<open>cpu_count\<close> processes and joins them, then calls \<open>write_pdf\<close> on the
  output list. An exception of \<open>process_files\<close> leaves \<open>main\<close> before a process is
  created (\<open>Raised\<close>). The schedule is the interleaving of the processes; when it ends before
  every process has returned, \<open>main\<close> is still in \<open>join\<close>. Past \<open>join\<close>, \<open>main\<close> ends as
  \<open>write_pdf\<close> does: it returns (\<open>Finished\<close>) or leaves with the exception of
  \<open>merger.write\<close> (\<open>Aborted\<close>).
\<close>

datatype run_result = Raised error | Joining job | Aborted job error | Finished job outcome

definition start :: "task list \<Rightarrow> nat \<Rightarrow> job" where
  "start tasks number_of_CPUs =
     \<lparr>svg_queue = tasks, output_list = [], processes = replicate number_of_CPUs AtWhile,
      job_console = []\<rparr>"

definition main ::
  "env \<Rightarrow> (bytes \<Rightarrow> bytes option) \<Rightarrow> (bytes \<Rightarrow> bool) \<Rightarrow> (bytes list \<Rightarrow> string \<Rightarrow> bool)
    \<Rightarrow> nat \<Rightarrow> event list \<Rightarrow> string \<Rightarrow> string \<Rightarrow> run_result" where
  "main e render accepts writes number_of_CPUs schedule path_to_svg pattern_page_number =
     (case process_files e path_to_svg [] (Some pattern_page_number) of
        Inl err \<Rightarrow> Raised err
      | Inr en \<Rightarrow>
          (let j = run render schedule (start (queue en) number_of_CPUs)
           in if all_exited j then
                (case write_pdf accepts writes (output_list j) (pdf_file_name en) of
                   Inl err \<Rightarrow> Aborted j err
                 | Inr out \<Rightarrow> Finished j out)
              else Joining j))"

text \<open>The state of the job when \<open>main\<close> has got past \<open>join\<close>.\<close>

fun joined :: "run_result \<Rightarrow> job option" where
  "joined (Finished j out) = Some j"
| "joined (Aborted j err) = Some j"
| "joined (Raised err) = None"
| "joined (Joining j) = None"

section \<open>Notions used in the statements\<close>

text \<open>
  The order that the specification words for the assembler: ascending page index, results
  with the same index in the order in which they were collected (\<open>sort_key\<close> is stable).
\<close>

definition stable_by_page_index :: "result list \<Rightarrow> result list" where
  "stable_by_page_index outputs = sort_key fst outputs"

text \<open>The result a task leads to, and the tasks that the processes hold at a moment.\<close>

definition result_of :: "(bytes \<Rightarrow> bytes option) \<Rightarrow> task \<Rightarrow> result" where
  "result_of render t = fst (convert render t)"

fun in_hand :: "worker list \<Rightarrow> task list" where
  "in_hand [] = []"
| "in_hand (Converting t # ws) = t # in_hand ws"
| "in_hand (w # ws) = in_hand ws"

definition accounted :: "(bytes \<Rightarrow> bytes option) \<Rightarrow> job \<Rightarrow> result multiset" where
  "accounted render j =
     mset (map (result_of render) (svg_queue j)) +
     mset (map (result_of render) (in_hand (processes j))) +
     mset (output_list j)"

subsection \<open>A small environment, on which the definitions are evaluated\<close>

text \<open>
  A directory \<open>book\<close> with three pages and a text file, an empty directory \<open>empty\<close>, an
  archive \<open>book.zip\<close>, and a file \<open>damaged.zip\<close> that passes \<open>is_zipfile\<close> and that
  \<open>ZipFile\<close> cannot open; every other path is neither directory nor archive. Of \<open>re\<close> and
  \<open>int\<close> the environment has what the examples below use: the default pattern and
  \<open>[a-z]+\<close>, whose matches are the maximal runs of digits and of small letters, the pattern
  \<open>(\<close>, which does not compile, and \<open>int\<close> on a string of digits or of letters.

  The page blobs of the examples are PDF documents of one empty page, laid out as
  \<open>BLANK_PDF_PAGE\<close> is (which is \<open>one_page_pdf\<close> of the size A4), so that the offsets of their
  tables are right: pages of the sizes A5 and Letter, and a page whose content stream has no
  \<open>endstream\<close>. The merger of the examples appends these four blobs and no other, and cannot
  write the last one: its stream is read only by \<open>merger.write\<close>. The renderer of the
  examples fails on the bytes of \<open>cover.svg\<close>.
\<close>

definition one_page_pdf :: "string \<Rightarrow> bytes" where
  "one_page_pdf media_box = lines
    [''%PDF-1.4'',
     ''1 0 obj<</Type/Catalog/Pages 2 0 R>>endobj'',
     ''2 0 obj<</Type/Pages/Count 1/Kids[3 0 R]>>endobj'',
     ''3 0 obj<</Type/Page/MediaBox[0 0 '' @ media_box @ '']/Parent 2 0 R/Resources<<>>>>endobj'',
     ''xref'',
     ''0 4'',
     ''0000000000 65535 f '',
     ''0000000009 00000 n '',
     ''0000000052 00000 n '',
     ''0000000101 00000 n '',
     ''trailer<</Size 4/Root 1 0 R>>'',
     ''startxref'',
     ''186'',
     ''%%EOF'']"

definition A5_PDF_PAGE :: bytes where
  "A5_PDF_PAGE = one_page_pdf ''419.528 595.276''"

definition LETTER_PDF_PAGE :: bytes where
  "LETTER_PDF_PAGE = one_page_pdf ''612.000 792.000''"

definition NOEND_PDF_PAGE :: bytes where
  "NOEND_PDF_PAGE = lines
    [''%PDF-1.4'',
     ''1 0 obj<</Type/Catalog/Pages 2 0 R>>endobj'',
     ''2 0 obj<</Type/Pages/Count 1/Kids[3 0 R]>>endobj'',
     ''3 0 obj<</Type/Page/MediaBox[0 0 595.276 841.890]/Parent 2 0 R/Resources<<>>/Contents 4 0 R>>endobj'',
     ''4 0 obj<</Length 0>>stream'',
     ''endobj'',
     ''xref'',
     ''0 5'',
     ''0000000000 65535 f '',
     ''0000000009 00000 n '',
     ''0000000052 00000 n '',
     ''0000000101 00000 n '',
     ''0000000201 00000 n '',
     ''trailer<</Size 5/Root 1 0 R>>'',
     ''startxref'',
     ''235'',
     ''%%EOF'']"

definition sample_accepts :: "bytes \<Rightarrow> bool" where
  "sample_accepts pdf =
     (pdf = BLANK_PDF_PAGE \<or> pdf = A5_PDF_PAGE \<or> pdf = LETTER_PDF_PAGE \<or> pdf = NOEND_PDF_PAGE)"

definition sample_writes :: "bytes list \<Rightarrow> string \<Rightarrow> bool" where
  "sample_writes pages file_name = (NOEND_PDF_PAGE \<notin> set pages)"

definition is_digit :: "char \<Rightarrow> bool" where
  "is_digit c = (CHR ''0'' \<le> c \<and> c \<le> CHR ''9'')"

definition is_lower :: "char \<Rightarrow> bool" where
  "is_lower c = (CHR ''a'' \<le> c \<and> c \<le> CHR ''z'')"

fun runs :: "(char \<Rightarrow> bool) \<Rightarrow> string \<Rightarrow> string \<Rightarrow> string list" where
  "runs P [] cur = (if cur = [] then [] else [cur])"
| "runs P (c # cs) cur =
     (if P c then runs P cs (cur @ [c])
      else (if cur = [] then [] else [cur]) @ runs P cs [])"

definition sample_findall :: "string \<Rightarrow> string \<Rightarrow> pymatch list" where
  "sample_findall p name =
     (if p = default_pattern then map Str (runs is_digit name [])
      else if p = ''[a-z]+'' then map Str (runs is_lower name [])
      else [])"

definition sample_int :: "string \<Rightarrow> int option" where
  "sample_int s =
     (if s \<noteq> [] \<and> list_all is_digit s
      then Some (int (foldl (\<lambda>a c. 10 * a + (of_char c - 48)) 0 s))
      else None)"

definition sample_walk :: "string \<Rightarrow> (string \<times> bytes) list" where
  "sample_walk path =
     (if path = ''book''
      then [(''page_3.svg'', ''svg3''), (''page_1.svg'', ''svg1''), (''cover.svg'', ''svg0''),
            (''notes.txt'', ''text'')]
      else [])"

definition sample_zip :: "string \<Rightarrow> (string \<times> bytes) list" where
  "sample_zip path = (if path = ''book.zip'' then [(''p/2.SVG'', ''svg2''), (''p/'', [])] else [])"

definition sample_env :: env where
  "sample_env =
     \<lparr>re_compiles = (\<lambda>p. p \<noteq> ''(''),
      findall = sample_findall,
      str_to_int = sample_int,
      isdir = (\<lambda>path. path = ''book'' \<or> path = ''empty''),
      is_zipfile = (\<lambda>path. path = ''book.zip'' \<or> path = ''damaged.zip''),
      zip_opens = (\<lambda>path. path = ''book.zip''),
      walk = sample_walk,
      zip_members = sample_zip,
      basename = (\<lambda>path. rev (takeWhile (\<lambda>c. c \<noteq> CHR ''/'') (rev path))),
      splitext_root = (\<lambda>name. if CHR ''.'' \<in> set name
                                then rev (tl (dropWhile (\<lambda>c. c \<noteq> CHR ''.'') (rev name)))
                                else name)\<rparr>"

definition sample_render :: "bytes \<Rightarrow> bytes option" where
  "sample_render svg_data =
     (if svg_data = ''svg0'' then None
      else if svg_data = ''svg1'' then Some A5_PDF_PAGE
      else Some LETTER_PDF_PAGE)"

text \<open>
  The tasks of the directory \<open>book\<close>, and an interleaving of two processes on them that
  ends with both returned; its fourth event is a pull that raises \<open>Empty\<close> on a queue that
  holds tasks.
\<close>

definition sample_tasks :: "task list" where
  "sample_tasks = [(3, ''svg3''), (1, ''svg1''), (0, ''svg0'')]"

definition sample_schedule :: "event list" where
  "sample_schedule =
     [Advance 0, Advance 1, Advance 1, PullEmpty 0, Advance 1, Advance 0, Advance 0, Advance 0,
      Advance 0, Advance 0, Advance 0, Advance 1, Advance 1, Advance 0]"

text \<open>A renderer whose output for every page is, byte for byte, the blank page.\<close>

definition blank_render :: "bytes \<Rightarrow> bytes option" where
  "blank_render svg_data = Some BLANK_PDF_PAGE"

section \<open>Properties of the assembly loop\<close>

lemma merger_append_pages:
  "merger (append_pages accepts rs a) = merger a @ map snd (filter (\<lambda>r. accepts (snd r)) rs)"
  by (induction rs arbitrary: a) auto

lemma error_page_append_pages:
  "error_page (append_pages accepts rs a) =
     error_page a @ map fst (filter (\<lambda>r. \<not> accepts (snd r) \<or> snd r = BLANK_PDF_PAGE) rs)"
  by (induction rs arbitrary: a) auto

lemma console_append_pages:
  "console (append_pages accepts rs a) =
     console a @ map (\<lambda>r. ErrorMerger (fst r)) (filter (\<lambda>r. \<not> accepts (snd r)) rs)"
  by (induction rs arbitrary: a) auto

text \<open>\<open>write_pdf\<close> on a non-empty list, with the loop replaced by what it computes.\<close>

lemma write_pdf_nonempty:
  assumes "outputs \<noteq> []"
  shows "write_pdf accepts writes outputs file_name =
     (if writes (map snd (filter (\<lambda>r. accepts (snd r)) (sort outputs))) file_name then
        Inr \<lparr>written = Some (file_name, map snd (filter (\<lambda>r. accepts (snd r)) (sort outputs))),
             error_pages =
               map fst (filter (\<lambda>r. \<not> accepts (snd r) \<or> snd r = BLANK_PDF_PAGE) (sort outputs)),
             printed =
               map (\<lambda>r. ErrorMerger (fst r)) (filter (\<lambda>r. \<not> accepts (snd r)) (sort outputs)) @
               [if map fst (filter (\<lambda>r. \<not> accepts (snd r) \<or> snd r = BLANK_PDF_PAGE) (sort outputs))
                   \<noteq> []
                then CreatedWithErrors file_name (length outputs)
                  (length (map fst
                     (filter (\<lambda>r. \<not> accepts (snd r) \<or> snd r = BLANK_PDF_PAGE) (sort outputs))))
                  (map fst (filter (\<lambda>r. \<not> accepts (snd r) \<or> snd r = BLANK_PDF_PAGE) (sort outputs)))
                else CreatedSuccessfully file_name (length outputs)]\<rparr>
      else Inl MergerWriteError)"
  using assms
  by (simp add: write_pdf_def Let_def merger_append_pages error_page_append_pages
      console_append_pages)

lemma written_write_pdf:
  assumes "outputs \<noteq> []" and "write_pdf accepts writes outputs file_name = Inr out"
  shows "written out = Some (file_name, map snd (filter (\<lambda>r. accepts (snd r)) (sort outputs)))"
  using assms(2) unfolding write_pdf_nonempty [OF assms(1)]
  by (auto split: if_splits)

lemma error_pages_write_pdf:
  assumes "write_pdf accepts writes outputs file_name = Inr out"
  shows "error_pages out =
     map fst (filter (\<lambda>r. \<not> accepts (snd r) \<or> snd r = BLANK_PDF_PAGE) (sort outputs))"
proof (cases "outputs = []")
  case True
  with assms show ?thesis by (auto simp: write_pdf_def)
next
  case False
  from assms show ?thesis unfolding write_pdf_nonempty [OF False]
    by (auto split: if_splits)
qed

lemma printed_write_pdf:
  assumes "outputs \<noteq> []" and "write_pdf accepts writes outputs file_name = Inr out"
  shows "printed out =
     map (\<lambda>r. ErrorMerger (fst r)) (filter (\<lambda>r. \<not> accepts (snd r)) (sort outputs)) @
     [if error_pages out \<noteq> []
      then CreatedWithErrors file_name (length outputs) (length (error_pages out)) (error_pages out)
      else CreatedSuccessfully file_name (length outputs)]"
  using assms(2) unfolding write_pdf_nonempty [OF assms(1)]
  by (auto split: if_splits)

lemma write_pdf_mset:
  assumes "mset xs = mset ys"
  shows "write_pdf accepts writes xs file_name = write_pdf accepts writes ys file_name"
proof -
  from assms have "sort xs = sort ys"
    by (metis properties_for_sort sorted_sort mset_sort)
  moreover from assms have "length xs = length ys"
    by (metis size_mset)
  moreover from assms have "xs = [] \<longleftrightarrow> ys = []"
    by (metis mset_zero_iff)
  ultimately show ?thesis
    by (simp add: write_pdf_def Let_def)
qed

text \<open>The order on tuples, spelled out: first the page number, then the bytes.\<close>

lemma sorted_lex_pairs:
  "sorted (ps :: result list) \<Longrightarrow>
   sorted_wrt (\<lambda>r s. fst r < fst s \<or> (fst r = fst s \<and> snd r \<le> snd s)) ps"
  by (erule sorted_wrt_mono_rel [rotated]) (auto simp: less_eq_prod_def)

lemma sorted_fst_pairs:
  "sorted (ps :: result list) \<Longrightarrow> sorted (map fst ps)"
  unfolding sorted_map
  by (erule sorted_wrt_mono_rel [rotated]) (auto simp: less_eq_prod_def)

section \<open>Properties of the worker pool\<close>

text \<open>
  Replacing the state of one process changes the tasks in hand by what the old and the new
  state hold.
\<close>

lemma in_hand_update:
  "i < length ws \<Longrightarrow>
   mset (in_hand (ws[i := w])) + mset (in_hand [ws ! i]) = mset (in_hand ws) + mset (in_hand [w])"
proof (induction ws arbitrary: i)
  case Nil
  then show ?case by simp
next
  case (Cons a ws)
  show ?case
  proof (cases i)
    case 0
    then show ?thesis by (cases a; cases w) simp_all
  next
    case (Suc k)
    with Cons.prems have "k < length ws" by simp
    from Cons.IH [OF this] Suc show ?thesis by (cases a) simp_all
  qed
qed

lemma in_hand_update_idle:
  assumes "i < length ws" and "in_hand [ws ! i] = []" and "in_hand [w] = []"
  shows "mset (in_hand (ws[i := w])) = mset (in_hand ws)"
  using in_hand_update [OF assms(1), of w] assms(2,3) by simp

lemma in_hand_update_take:
  assumes "i < length ws" and "in_hand [ws ! i] = []"
  shows "mset (in_hand (ws[i := Converting t])) = add_mset t (mset (in_hand ws))"
  using in_hand_update [OF assms(1), of "Converting t"] assms(2) by simp

lemma in_hand_update_release:
  assumes "i < length ws" and "ws ! i = Converting t"
  shows "add_mset t (mset (in_hand (ws[i := AtWhile]))) = mset (in_hand ws)"
  using in_hand_update [OF assms(1), of AtWhile] assms(2) by simp

text \<open>
  No move of any process loses or duplicates a task: the results of the tasks in the queue
  and in hand, with the results already appended, stay the same multiset.
\<close>

lemma accounted_step:
  "accounted render (convert_svg_to_pdf render ev j) = accounted render j"
proof (cases ev)
  case (Advance i)
  show ?thesis
  proof (cases "i < length (processes j)")
    case False
    with Advance show ?thesis by simp
  next
    case True
    show ?thesis
    proof (cases "processes j ! i")
      case AtWhile
      with True Advance show ?thesis
        by (simp add: accounted_def in_hand_update_idle)
    next
      case AtGet
      with True Advance show ?thesis
        by (cases "svg_queue j")
           (simp_all add: accounted_def in_hand_update_idle in_hand_update_take)
    next
      case (Converting t)
      from in_hand_update_release [OF True Converting]
      have "mset (map (result_of render) (in_hand (processes j))) =
            add_mset (result_of render t)
              (mset (map (result_of render) (in_hand ((processes j)[i := AtWhile]))))"
        by (metis mset_map image_mset_add_mset)
      with True Advance Converting show ?thesis
        by (simp add: accounted_def result_of_def)
    next
      case Exited
      with True Advance show ?thesis by simp
    qed
  qed
next
  case (PullEmpty i)
  then show ?thesis by (simp add: accounted_def in_hand_update_idle)
qed

lemma queue_step:
  "svg_queue j = [] \<Longrightarrow> svg_queue (convert_svg_to_pdf render ev j) = []"
  by (cases ev) (auto split: worker.splits)

lemma length_processes_step:
  "length (processes (convert_svg_to_pdf render ev j)) = length (processes j)"
  by (cases ev) (auto split: worker.splits list.splits)

text \<open>A process returns only on an empty queue, and the queue never grows.\<close>

lemma exited_step:
  assumes "Exited \<in> set (processes j) \<longrightarrow> svg_queue j = []"
  shows "Exited \<in> set (processes (convert_svg_to_pdf render ev j)) \<longrightarrow>
         svg_queue (convert_svg_to_pdf render ev j) = []"
proof (cases "svg_queue j = []")
  case True
  then show ?thesis by (simp add: queue_step)
next
  case False
  with assms have none: "Exited \<notin> set (processes j)" by blast
  then have "\<And>w. w \<noteq> Exited \<Longrightarrow> Exited \<notin> set ((processes j)[i := w])" for i
    by (metis insertE set_update_subset_insert subsetD)
  with False none show ?thesis
    by (cases ev) (auto split: worker.splits list.splits)
qed

lemma accounted_run: "accounted render (run render schedule j) = accounted render j"
  unfolding run_def by (induction schedule arbitrary: j) (simp_all add: accounted_step)

lemma length_processes_run: "length (processes (run render schedule j)) = length (processes j)"
  unfolding run_def by (induction schedule arbitrary: j) (simp_all add: length_processes_step)

lemma exited_run:
  "Exited \<in> set (processes j) \<longrightarrow> svg_queue j = [] \<Longrightarrow>
   Exited \<in> set (processes (run render schedule j)) \<longrightarrow> svg_queue (run render schedule j) = []"
  unfolding run_def
proof (induction schedule arbitrary: j)
  case Nil
  then show ?case by simp
next
  case (Cons ev schedule)
  from Cons.IH [OF exited_step [OF Cons.prems]] show ?case by simp
qed

lemma in_hand_all_exited: "list_all (\<lambda>w. w = Exited) ws \<Longrightarrow> in_hand ws = []"
  by (induction ws) auto

lemma run_complete:
  assumes "0 < n" and "all_exited (run render schedule (start tasks n))"
  shows "svg_queue (run render schedule (start tasks n)) = []"
    and "mset (output_list (run render schedule (start tasks n))) = mset (map (result_of render) tasks)"
proof -
  let ?j = "run render schedule (start tasks n)"
  have len: "length (processes ?j) = n"
    by (simp add: length_processes_run start_def)
  with assms have "Exited \<in> set (processes ?j)"
    by (cases "processes ?j") (auto simp: all_exited_def)
  moreover have "Exited \<in> set (processes ?j) \<longrightarrow> svg_queue ?j = []"
    by (rule exited_run) (simp add: start_def)
  ultimately show q: "svg_queue ?j = []" by blast
  have "accounted render ?j = accounted render (start tasks n)"
    by (rule accounted_run)
  moreover have "in_hand (replicate n AtWhile) = []" by (induction n) simp_all
  then have "accounted render (start tasks n) = mset (map (result_of render) tasks)"
    by (simp add: accounted_def start_def)
  moreover from assms(2) have "in_hand (processes ?j) = []"
    by (simp add: all_exited_def in_hand_all_exited)
  ultimately show "mset (output_list ?j) = mset (map (result_of render) tasks)"
    using q by (simp add: accounted_def)
qed

text \<open>
  The processes can always finish: when the first process serves every task and each process
  then tests the empty queue, all have returned.
\<close>

lemma run_append:
  "run render (xs @ ys) j = run render ys (run render xs j)"
  by (simp add: run_def)

lemma serve_one:
  assumes "0 < length (processes j)" and "processes j ! 0 = AtWhile" and "svg_queue j = t # q"
  shows "run render [Advance 0, Advance 0, Advance 0] j =
     j\<lparr>svg_queue := q, output_list := output_list j @ [fst (convert render t)],
       job_console := job_console j @ snd (convert render t)\<rparr>"
proof -
  from assms(1,2) have "(processes j)[0 := AtWhile] = processes j"
    by (metis list_update_id)
  with assms show ?thesis by (simp add: run_def)
qed

lemma serve_all:
  assumes "0 < length (processes j)" and "processes j ! 0 = AtWhile"
  shows "svg_queue (run render (concat (map (\<lambda>t. [Advance 0, Advance 0, Advance 0]) (svg_queue j))) j) = []
       \<and> processes (run render (concat (map (\<lambda>t. [Advance 0, Advance 0, Advance 0]) (svg_queue j))) j) =
           processes j"
  using assms
proof (induction "svg_queue j" arbitrary: j)
  case Nil
  then show ?case by (simp add: run_def)
next
  case (Cons t q)
  let ?j = "j\<lparr>svg_queue := q, output_list := output_list j @ [fst (convert render t)],
       job_console := job_console j @ snd (convert render t)\<rparr>"
  from Cons.hyps(2) have tq: "svg_queue j = t # q" by simp
  have one: "run render [Advance 0, Advance 0, Advance 0] j = ?j"
    using Cons.prems tq by (rule serve_one)
  have "q = svg_queue ?j" by simp
  from Cons.hyps(1) [OF this] Cons.prems
  have "svg_queue (run render (concat (map (\<lambda>t. [Advance 0, Advance 0, Advance 0]) q)) ?j) = []
       \<and> processes (run render (concat (map (\<lambda>t. [Advance 0, Advance 0, Advance 0]) q)) ?j) =
           processes j"
    by simp
  moreover have "run render (concat (map (\<lambda>t. [Advance 0, Advance 0, Advance 0]) (svg_queue j))) j =
      run render (concat (map (\<lambda>t. [Advance 0, Advance 0, Advance 0]) q)) ?j"
  proof -
    have "concat (map (\<lambda>t. [Advance 0, Advance 0, Advance 0]) (svg_queue j)) =
        [Advance 0, Advance 0, Advance 0] @ concat (map (\<lambda>t. [Advance 0, Advance 0, Advance 0]) q)"
      unfolding tq by simp
    then show ?thesis
      by (simp only: run_append one)
  qed
  ultimately show ?case by simp
qed

lemma exit_all:
  assumes "svg_queue j = []" and "processes j = replicate k Exited @ replicate m AtWhile"
  shows "processes (run render (map Advance [k..<k + m]) j) = replicate (k + m) Exited"
  using assms
proof (induction m arbitrary: k j)
  case 0
  then show ?case by (simp add: run_def)
next
  case (Suc m)
  let ?j = "convert_svg_to_pdf render (Advance k) j"
  from Suc.prems have k: "k < length (processes j)" and w: "processes j ! k = AtWhile"
    by (simp_all add: nth_append)
  from Suc.prems have "(processes j)[k := Exited] = replicate (Suc k) Exited @ replicate m AtWhile"
    by (simp add: list_update_append replicate_append_same)
  with k w Suc.prems(1) have p: "processes ?j = replicate (Suc k) Exited @ replicate m AtWhile"
    and q: "svg_queue ?j = []"
    by simp_all
  have "[k..<k + Suc m] = k # [Suc k..<Suc k + m]"
    by (simp add: upt_conv_Cons)
  then have "run render (map Advance [k..<k + Suc m]) j = run render (map Advance [Suc k..<Suc k + m]) ?j"
    by (simp add: run_def)
  with Suc.IH [OF q p] show ?case by simp
qed

lemma job_can_finish:
  assumes "0 < n"
  shows "\<exists>schedule. all_exited (run render schedule (start tasks n))"
proof -
  let ?serve = "concat (map (\<lambda>t. [Advance 0, Advance 0, Advance 0]) tasks)"
  let ?j = "run render ?serve (start tasks n)"
  from assms have "0 < length (processes (start tasks n))" and "processes (start tasks n) ! 0 = AtWhile"
    by (simp_all add: start_def)
  from serve_all [OF this, of render]
  have q: "svg_queue ?j = []" and p: "processes ?j = replicate 0 Exited @ replicate n AtWhile"
    by (simp_all add: start_def)
  from exit_all [OF q p, of render]
  have "processes (run render (?serve @ map Advance [0..<n]) (start tasks n)) = replicate n Exited"
    by (simp add: run_append)
  then have "all_exited (run render (?serve @ map Advance [0..<n]) (start tasks n))"
    by (simp add: all_exited_def list_all_iff)
  then show ?thesis by blast
qed

text \<open>With no task in the queue and none in hand, nothing is appended and nothing is printed.\<close>

lemma no_tasks_step:
  assumes "svg_queue j = []" and "output_list j = []" and "job_console j = []"
    and "in_hand (processes j) = []"
  shows "svg_queue (convert_svg_to_pdf render ev j) = []
       \<and> output_list (convert_svg_to_pdf render ev j) = []
       \<and> job_console (convert_svg_to_pdf render ev j) = []
       \<and> in_hand (processes (convert_svg_to_pdf render ev j)) = []"
proof -
  have noconv: "processes j ! i \<noteq> Converting t" if "i < length (processes j)" for i t
  proof
    assume c: "processes j ! i = Converting t"
    from in_hand_update_release [OF that c] assms(4) show False by simp
  qed
  have idle: "in_hand ((processes j)[i := w]) = []"
    if "i < length (processes j)" and "in_hand [w] = []" for i w
  proof -
    from noconv [OF that(1)] have "in_hand [processes j ! i] = []"
      by (cases "processes j ! i") auto
    from in_hand_update_idle [OF that(1) this that(2)] assms(4) show ?thesis by simp
  qed
  show ?thesis
  proof (cases ev)
    case (Advance i)
    show ?thesis
    proof (cases "i < length (processes j)")
      case False
      with Advance assms show ?thesis by simp
    next
      case True
      with Advance assms noconv [OF True] idle [OF True] show ?thesis
        by (cases "processes j ! i") auto
    qed
  next
    case (PullEmpty i)
    with assms idle [of i AtWhile] show ?thesis by simp
  qed
qed

lemma no_tasks_run:
  assumes "svg_queue j = []" and "output_list j = []" and "job_console j = []"
    and "in_hand (processes j) = []"
  shows "output_list (run render schedule j) = [] \<and> job_console (run render schedule j) = []"
  using assms
proof (induction schedule arbitrary: j)
  case Nil
  then show ?case by (simp add: run_def)
next
  case (Cons ev schedule)
  from no_tasks_step [OF Cons.prems, of render ev]
  have "output_list (run render schedule (convert_svg_to_pdf render ev j)) = []
      \<and> job_console (run render schedule (convert_svg_to_pdf render ev j)) = []"
    by (intro Cons.IH) simp_all
  then show ?case by (simp add: run_def)
qed

lemma result_of_eq:
  "result_of render t =
     (fst t, case render (snd t) of Some pdf_content \<Rightarrow> pdf_content | None \<Rightarrow> BLANK_PDF_PAGE)"
  by (cases t) (simp add: result_of_def convert_def split: option.splits)

lemma fst_result_of: "fst (result_of render t) = fst t"
  by (simp add: result_of_eq)

lemma number_of_svg_files_process_files:
  "process_files e path q pattern = Inr en \<Longrightarrow> number_of_svg_files en = length (queue en)"
  by (auto simp: process_files_def Let_def split: if_splits sum.splits prod.splits)

section \<open>Properties of the enumeration\<close>

text \<open>The only exceptions that leave \<open>page_number\<close>, and so the two loops, are those of \<open>int\<close>.\<close>

lemma py_int_error:
  "py_int e m = Inl err \<Longrightarrow> err = ValueError \<or> err = int_type_error"
  by (cases m) (auto simp: int_type_error_def split: option.splits)

lemma page_number_error:
  "page_number e file_name pattern = Inl err \<Longrightarrow> err = ValueError \<or> err = int_type_error"
  by (auto simp: page_number_def split: list.splits sum.splits dest: py_int_error)

lemma put_files_error:
  "put_files e pattern keep files st = Inl err \<Longrightarrow> err = ValueError \<or> err = int_type_error"
proof (induction files arbitrary: st)
  case Nil
  then show ?case by (cases st) simp
next
  case (Cons f files)
  obtain name svg_data where f: "f = (name, svg_data)" by (cases f)
  obtain q out where st: "st = (q, out)" by (cases st)
  show ?case
  proof (cases "keep name")
    case False
    with Cons f st show ?thesis by simp
  next
    case True
    show ?thesis
    proof (cases "page_number e name pattern")
      case (Inl err')
      with Cons.prems f st True have "err = err'" by simp
      with Inl page_number_error show ?thesis by blast
    next
      case (Inr r)
      with Cons f st True show ?thesis by (cases r) simp
    qed
  qed
qed

lemma put_files_bad_file:
  assumes "(file, svg_data) \<in> set files" and "keep file"
    and "page_number e file pattern = Inl err0"
  shows "\<exists>err. put_files e pattern keep files st = Inl err"
  using assms(1)
proof (induction files arbitrary: st)
  case Nil
  then show ?case by simp
next
  case (Cons f files)
  obtain file' svg_data' where f: "f = (file', svg_data')" by (cases f)
  obtain q out where st: "st = (q, out)" by (cases st)
  show ?case
  proof (cases "f = (file, svg_data)")
    case True
    with f st assms(2,3) show ?thesis by simp
  next
    case False
    with Cons.prems have "(file, svg_data) \<in> set files" by simp
    from Cons.IH [OF this] f st show ?thesis
      by (auto split: sum.splits)
  qed
qed

lemma put_files_ok:
  assumes "\<forall>(file, svg_data) \<in> set files. keep file \<longrightarrow> (\<exists>r. page_number e file pattern = Inr r)"
  shows "put_files e pattern keep files (q, out) =
     Inr (q @ map (\<lambda>(file, svg_data). (fst (projr (page_number e file pattern)), svg_data))
                (filter (\<lambda>(file, svg_data). keep file) files),
          out @ concat (map (\<lambda>(file, svg_data). snd (projr (page_number e file pattern)))
                (filter (\<lambda>(file, svg_data). keep file) files)))"
  using assms
proof (induction files arbitrary: q out)
  case Nil
  then show ?case by simp
next
  case (Cons f files)
  obtain name svg_data where f: "f = (name, svg_data)" by (cases f)
  from Cons.prems have rest:
    "\<forall>(file, svg_data) \<in> set files. keep file \<longrightarrow> (\<exists>r. page_number e file pattern = Inr r)"
    by simp
  show ?case
  proof (cases "keep name")
    case False
    with Cons.IH [OF rest] f show ?thesis by simp
  next
    case True
    with Cons.prems f obtain n w where r: "page_number e name pattern = Inr (n, w)" by fastforce
    with Cons.IH [OF rest] f True show ?thesis by simp
  qed
qed

lemma process_files_dir:
  assumes "re_compiles e (pattern_or_default pattern_arg)" and "isdir e path"
  shows "process_files e path q pattern_arg =
     (case put_files e (pattern_or_default pattern_arg) (\<lambda>file. endswith file ''.svg'')
             (walk e path) (q, []) of
        Inl err \<Rightarrow> Inl err
      | Inr (q', out) \<Rightarrow>
          Inr \<lparr>pdf_file_name = basename e path @ ''.pdf'',
               number_of_svg_files = length q', queue = q', warnings = out\<rparr>)"
  using assms by (simp add: process_files_def)

lemma process_files_zip:
  assumes "re_compiles e (pattern_or_default pattern_arg)" and "\<not> isdir e path"
    and "is_zipfile e path" and "zip_opens e path"
  shows "process_files e path q pattern_arg =
     (case put_files e (pattern_or_default pattern_arg) (\<lambda>file. endswith (lower file) ''.svg'')
             (zip_members e path) (q, []) of
        Inl err \<Rightarrow> Inl err
      | Inr (q', out) \<Rightarrow>
          Inr \<lparr>pdf_file_name = splitext_root e (basename e path) @ ''.pdf'',
               number_of_svg_files = length q', queue = q', warnings = out\<rparr>)"
  using assms by (simp add: process_files_def)

lemma process_files_bad_zip:
  assumes "re_compiles e (pattern_or_default pattern_arg)" and "\<not> isdir e path"
    and "is_zipfile e path" and "\<not> zip_opens e path"
  shows "process_files e path q pattern_arg = Inl BadZipFile"
  using assms by (simp add: process_files_def)

lemma process_files_neither:
  assumes "re_compiles e (pattern_or_default pattern_arg)" and "\<not> isdir e path"
    and "\<not> is_zipfile e path"
  shows "process_files e path q pattern_arg = Inl (TypeError ''Directory or zip file is required.'')"
  using assms by (simp add: process_files_def)

lemma process_files_re_error:
  "\<not> re_compiles e (pattern_or_default pattern_arg) \<Longrightarrow>
   process_files e path q pattern_arg = Inl ReError"
  by (simp add: process_files_def)

text \<open>
  On a directory, or an archive that opens, the only exceptions are those of \<open>int\<close>; on an
  archive that does not open, the one of \<open>ZipFile\<close>.
\<close>

lemma process_files_listing_error:
  assumes "re_compiles e (pattern_or_default pattern_arg)"
    and "isdir e path \<or> is_zipfile e path \<and> zip_opens e path"
    and "process_files e path q pattern_arg = Inl err"
  shows "err = ValueError \<or> err = int_type_error"
proof (cases "isdir e path")
  case True
  from assms(3) show ?thesis
    unfolding process_files_dir [OF assms(1) True]
    by (auto split: sum.splits prod.splits dest: put_files_error)
next
  case False
  with assms(2) have z: "is_zipfile e path" and o: "zip_opens e path" by simp_all
  from assms(3) show ?thesis
    unfolding process_files_zip [OF assms(1) False z o]
    by (auto split: sum.splits prod.splits dest: put_files_error)
qed

lemma process_files_archive_error:
  assumes "re_compiles e (pattern_or_default pattern_arg)"
    and "isdir e path \<or> is_zipfile e path"
    and "process_files e path q pattern_arg = Inl err"
  shows "err = ValueError \<or> err = int_type_error \<or> err = BadZipFile"
proof (cases "isdir e path \<or> zip_opens e path")
  case True
  with assms(2) have "isdir e path \<or> is_zipfile e path \<and> zip_opens e path" by blast
  from process_files_listing_error [OF assms(1) this assms(3)] show ?thesis by blast
next
  case False
  with assms(2) have "\<not> isdir e path" and "is_zipfile e path" and "\<not> zip_opens e path"
    by blast+
  from process_files_bad_zip [OF assms(1) this] assms(3) show ?thesis by simp
qed

text \<open>Every file that is kept adds a task; only a kept file can add a warning.\<close>

lemma put_files_grows:
  "put_files e pattern keep files (q, out) = Inr (q', out') \<Longrightarrow>
   length q \<le> length q' \<and> (length q' = length q \<longrightarrow> out' = out)"
proof (induction files arbitrary: q out)
  case Nil
  then show ?case by simp
next
  case (Cons f files)
  obtain name svg_data where f: "f = (name, svg_data)" by (cases f)
  show ?case
  proof (cases "keep name")
    case False
    with Cons f show ?thesis by simp
  next
    case True
    show ?thesis
    proof (cases "page_number e name pattern")
      case (Inl err)
      with Cons.prems f True show ?thesis by simp
    next
      case (Inr r)
      obtain n w where r: "r = (n, w)" by (cases r)
      with Cons.prems f True Inr
      have "put_files e pattern keep files (q @ [(n, svg_data)], out @ w) = Inr (q', out')"
        by simp
      from Cons.IH [OF this] show ?thesis by simp
    qed
  qed
qed

lemma process_files_no_svg:
  assumes "process_files e path [] pattern_arg = Inr en" and "number_of_svg_files en = 0"
  shows "queue en = [] \<and> warnings en = []"
proof -
  from assms(1) have c: "re_compiles e (pattern_or_default pattern_arg)"
    by (auto simp: process_files_def Let_def split: if_splits)
  from assms(1) have d: "isdir e path \<or> is_zipfile e path \<and> zip_opens e path"
    by (auto simp: process_files_def Let_def split: if_splits)
  from assms(1) c d obtain keep files where
    "put_files e (pattern_or_default pattern_arg) keep files ([], []) = Inr (queue en, warnings en)"
    and "number_of_svg_files en = length (queue en)"
    by (cases "isdir e path")
       (auto simp: process_files_dir process_files_zip split: sum.splits prod.splits)
  with put_files_grows [of e "pattern_or_default pattern_arg" keep files "[]" "[]" "queue en" "warnings en"]
    assms(2)
  show ?thesis by simp
qed

section \<open>The sample environment, evaluated\<close>




lemma sample_findall_letters: "findall sample_env ''[a-z]+'' ''page_3.svg'' = [Str ''page'', Str ''svg'']"
  by code_simp

lemma sample_int_3: "py_int sample_env (Str ''3'') = Inr 3"
  by code_simp

lemma sample_int_svg: "str_to_int sample_env ''svg'' = None"
  by code_simp

lemma sample_put_files:
  "put_files sample_env default_pattern (\<lambda>name. endswith name ''.svg'') (walk sample_env ''book'') ([], []) =
     Inr ([(3, ''svg3''), (1, ''svg1''), (0, ''svg0'')],
          [NoSequenceNumber ''cover.svg'' default_pattern])"
  by code_simp


lemma sample_walk_book:
  "walk sample_env ''book'' =
     [(''page_3.svg'', ''svg3''), (''page_1.svg'', ''svg1''), (''cover.svg'', ''svg0''),
      (''notes.txt'', ''text'')]"
  by (simp add: sample_env_def sample_walk_def)

lemma sample_endswith:
  "endswith ''page_3.svg'' ''.svg''" "endswith ''page_1.svg'' ''.svg''"
  "endswith ''cover.svg'' ''.svg''" "\<not> endswith ''notes.txt'' ''.svg''"
  by (simp_all add: endswith_def)



lemma sample_letters_process_files:
  "process_files sample_env ''book'' [] (Some ''[a-z]+'') = Inl ValueError"
  by code_simp

lemma sample_letters_main:
  "main sample_env sample_render sample_accepts sample_writes 2 [] ''book'' ''[a-z]+'' =
     Raised ValueError"
  by code_simp

lemma sample_run:
  "run sample_render sample_schedule (start sample_tasks 2) =
     \<lparr>svg_queue = [],
      output_list = [(3, LETTER_PDF_PAGE), (1, A5_PDF_PAGE), (0, BLANK_PDF_PAGE)],
      processes = [Exited, Exited], job_console = [ErrorConverting]\<rparr>"
  by code_simp

lemma sample_run_prefix:
  "run sample_render (take 10 sample_schedule) (start sample_tasks 2) =
     \<lparr>svg_queue = [],
      output_list = [(3, LETTER_PDF_PAGE), (1, A5_PDF_PAGE)],
      processes = [Converting (0, ''svg0''), AtWhile], job_console = []\<rparr>"
  by code_simp

lemma race_run:
  "run sample_render [Advance 0, Advance 1, Advance 0] (start [(1, ''svg1'')] 2) =
     \<lparr>svg_queue = [], output_list = [],
      processes = [Converting (1, ''svg1''), AtGet], job_console = []\<rparr>"
  by code_simp

lemma sample_empty_process_files:
  "process_files sample_env ''empty'' [] (Some default_pattern) =
     Inr \<lparr>pdf_file_name = ''empty.pdf'', number_of_svg_files = 0, queue = [], warnings = []\<rparr>"
  by code_simp

lemma sample_empty_main:
  "main sample_env sample_render sample_accepts sample_writes 2 [Advance 0, Advance 1] ''empty''
     default_pattern =
     Finished \<lparr>svg_queue = [], output_list = [], processes = [Exited, Exited], job_console = []\<rparr>
       \<lparr>written = None, error_pages = [], printed = []\<rparr>"
  by code_simp

lemma sample_main:
  "main sample_env sample_render sample_accepts sample_writes 2 sample_schedule ''book''
     default_pattern =
   Finished
     \<lparr>svg_queue = [],
      output_list = [(3, LETTER_PDF_PAGE), (1, A5_PDF_PAGE), (0, BLANK_PDF_PAGE)],
      processes = [Exited, Exited], job_console = [ErrorConverting]\<rparr>
     \<lparr>written = Some (''book.pdf'', [BLANK_PDF_PAGE, A5_PDF_PAGE, LETTER_PDF_PAGE]),
      error_pages = [0], printed = [CreatedWithErrors ''book.pdf'' 3 1 [0]]\<rparr>"
  by code_simp

text \<open>The page blobs of the examples: \<open>BLANK_PDF_PAGE\<close> is the page of size A4.\<close>

lemma BLANK_PDF_PAGE_one_page: "BLANK_PDF_PAGE = one_page_pdf ''595.276 841.890''"
  by code_simp

lemma sample_blobs_distinct:
  "A5_PDF_PAGE \<noteq> BLANK_PDF_PAGE" "LETTER_PDF_PAGE \<noteq> BLANK_PDF_PAGE"
  "NOEND_PDF_PAGE \<noteq> BLANK_PDF_PAGE" "A5_PDF_PAGE \<noteq> LETTER_PDF_PAGE"
  "A5_PDF_PAGE \<noteq> NOEND_PDF_PAGE" "LETTER_PDF_PAGE \<noteq> NOEND_PDF_PAGE"
  "''corrupt'' \<noteq> BLANK_PDF_PAGE"
  by code_simp+

lemma sample_blobs_order: "A5_PDF_PAGE < LETTER_PDF_PAGE"
  by code_simp

lemma sample_accepts_blobs:
  "sample_accepts BLANK_PDF_PAGE" "sample_accepts A5_PDF_PAGE" "sample_accepts LETTER_PDF_PAGE"
  "sample_accepts NOEND_PDF_PAGE" "\<not> sample_accepts ''corrupt''"
  by code_simp+

section \<open>The claims about write\_pdf\<close>

text \<open>
  C1 (as amended). For a non-empty list of results, the pages that \<open>write_pdf\<close> gives to the
  merger are the blobs the merger accepts, in the order of the sorted list: page numbers
  ascend, and results with the same page number follow in ascending order of their bytes,
  because \<open>output_list.sort()\<close> compares whole tuples. When \<open>merger.write\<close> returns, these
  are the pages of the file, and otherwise \<open>write_pdf\<close> leaves with its exception. The outcome
  is the same for every order in which the same results were collected.
\<close>

theorem write_pdf_order:
  assumes "outputs \<noteq> []"
  shows "merger (append_pages accepts (sort outputs) \<lparr>merger = [], error_page = [], console = []\<rparr>) =
           map snd (filter (\<lambda>r. accepts (snd r)) (sort outputs))
       \<and> (writes (map snd (filter (\<lambda>r. accepts (snd r)) (sort outputs))) file_name \<longrightarrow>
            (\<exists>out. write_pdf accepts writes outputs file_name = Inr out
               \<and> written out =
                   Some (file_name, map snd (filter (\<lambda>r. accepts (snd r)) (sort outputs)))))
       \<and> (\<not> writes (map snd (filter (\<lambda>r. accepts (snd r)) (sort outputs))) file_name \<longrightarrow>
            write_pdf accepts writes outputs file_name = Inl MergerWriteError)
       \<and> sorted (map fst (filter (\<lambda>r. accepts (snd r)) (sort outputs)))
       \<and> sorted_wrt (\<lambda>r s. fst r < fst s \<or> (fst r = fst s \<and> snd r \<le> snd s))
            (filter (\<lambda>r. accepts (snd r)) (sort outputs))
       \<and> (\<forall>collected. mset collected = mset outputs \<longrightarrow>
            write_pdf accepts writes collected file_name = write_pdf accepts writes outputs file_name)"
proof -
  let ?ps = "filter (\<lambda>r. accepts (snd r)) (sort outputs)"
  have s: "sorted ?ps" by (rule sorted_wrt_filter) (rule sorted_sort)
  have m: "merger (append_pages accepts (sort outputs)
             \<lparr>merger = [], error_page = [], console = []\<rparr>) = map snd ?ps"
    by (simp add: merger_append_pages)
  have a: "\<exists>out. write_pdf accepts writes outputs file_name = Inr out
               \<and> written out = Some (file_name, map snd ?ps)"
    if "writes (map snd ?ps) file_name"
    using that by (simp add: write_pdf_nonempty [OF assms])
  have a': "write_pdf accepts writes outputs file_name = Inl MergerWriteError"
    if "\<not> writes (map snd ?ps) file_name"
    using that by (simp add: write_pdf_nonempty [OF assms])
  have b: "sorted (map fst ?ps)" using s by (rule sorted_fst_pairs)
  have c: "sorted_wrt (\<lambda>r s. fst r < fst s \<or> (fst r = fst s \<and> snd r \<le> snd s)) ?ps"
    using s by (rule sorted_lex_pairs)
  have d: "\<forall>collected. mset collected = mset outputs \<longrightarrow>
            write_pdf accepts writes collected file_name = write_pdf accepts writes outputs file_name"
    using write_pdf_mset by blast
  from m a a' b c d show ?thesis by blast
qed

lemma sample_order_sort:
  "sort [(2 :: int, A5_PDF_PAGE), (1, LETTER_PDF_PAGE), (1, A5_PDF_PAGE)] =
     [(1, A5_PDF_PAGE), (1, LETTER_PDF_PAGE), (2, A5_PDF_PAGE)]"
  by code_simp

lemma sample_order_writes:
  "sample_writes [A5_PDF_PAGE, LETTER_PDF_PAGE, A5_PDF_PAGE] ''book.pdf''"
  by code_simp

theorem write_pdf_order_witness:
  "[(2 :: int, A5_PDF_PAGE), (1, LETTER_PDF_PAGE), (1, A5_PDF_PAGE)] \<noteq> []
   \<and> sample_writes [A5_PDF_PAGE, LETTER_PDF_PAGE, A5_PDF_PAGE] ''book.pdf''
   \<and> (\<exists>out. write_pdf sample_accepts sample_writes
               [(2, A5_PDF_PAGE), (1, LETTER_PDF_PAGE), (1, A5_PDF_PAGE)] ''book.pdf'' = Inr out
          \<and> written out = Some (''book.pdf'', [A5_PDF_PAGE, LETTER_PDF_PAGE, A5_PDF_PAGE]))
   \<and> write_pdf sample_accepts sample_writes
        [(1, A5_PDF_PAGE), (2, A5_PDF_PAGE), (1, LETTER_PDF_PAGE)] ''book.pdf'' =
     write_pdf sample_accepts sample_writes
        [(2, A5_PDF_PAGE), (1, LETTER_PDF_PAGE), (1, A5_PDF_PAGE)] ''book.pdf''"
proof -
  let ?xs = "[(2 :: int, A5_PDF_PAGE), (1, LETTER_PDF_PAGE), (1, A5_PDF_PAGE)]"
  have h: "?xs \<noteq> []" by simp
  have m: "mset [(1 :: int, A5_PDF_PAGE), (2, A5_PDF_PAGE), (1, LETTER_PDF_PAGE)] = mset ?xs"
    by simp
  have f: "map snd (filter (\<lambda>r. sample_accepts (snd r)) (sort ?xs)) =
      [A5_PDF_PAGE, LETTER_PDF_PAGE, A5_PDF_PAGE]"
    unfolding sample_order_sort by (simp add: sample_accepts_blobs)
  note t = write_pdf_order [OF h, of sample_accepts sample_writes "''book.pdf''", unfolded f]
  from t sample_order_writes
  have w: "\<exists>out. write_pdf sample_accepts sample_writes ?xs ''book.pdf'' = Inr out
          \<and> written out = Some (''book.pdf'', [A5_PDF_PAGE, LETTER_PDF_PAGE, A5_PDF_PAGE])"
    by blast
  from t have p: "\<forall>collected. mset collected = mset ?xs \<longrightarrow>
      write_pdf sample_accepts sample_writes collected ''book.pdf'' =
      write_pdf sample_accepts sample_writes ?xs ''book.pdf''"
    by blast
  from h sample_order_writes w p [rule_format, OF m] show ?thesis by blast
qed

text \<open>
  C1 as stated fails: two results with page number 0, both pages that the merger takes, were
  collected in the order Letter, A5; the file has them in the order A5, Letter, where a
  stable sort on the page number keeps Letter, A5.
\<close>

theorem write_pdf_order_counterexample:
  "write_pdf sample_accepts sample_writes [(0, LETTER_PDF_PAGE), (0, A5_PDF_PAGE)] ''book.pdf'' =
     Inr \<lparr>written = Some (''book.pdf'', [A5_PDF_PAGE, LETTER_PDF_PAGE]), error_pages = [],
          printed = [CreatedSuccessfully ''book.pdf'' 2]\<rparr>
   \<and> map snd (stable_by_page_index [(0, LETTER_PDF_PAGE), (0, A5_PDF_PAGE)]) =
       [LETTER_PDF_PAGE, A5_PDF_PAGE]
   \<and> A5_PDF_PAGE \<noteq> LETTER_PDF_PAGE"
  by code_simp

text \<open>
  What holds of a page that \<open>merger.append\<close> rejects: its number is added to \<open>error_page\<close> and
  the error is printed, the loop goes on, and when \<open>merger.write\<close> returns, every blob that was
  accepted is in the file and the summary that ends the output lists the page.
\<close>

lemma append_failure_contained:
  assumes "(i, pdf) \<in> set outputs" and "\<not> accepts pdf"
    and "write_pdf accepts writes outputs file_name = Inr out"
  shows "i \<in> set (error_pages out)
       \<and> ErrorMerger i \<in> set (printed out)
       \<and> written out = Some (file_name, map snd (filter (\<lambda>r. accepts (snd r)) (sort outputs)))
       \<and> last (printed out) =
           CreatedWithErrors file_name (length outputs) (length (error_pages out)) (error_pages out)"
proof -
  from assms(1) have ne: "outputs \<noteq> []" by auto
  from assms have "(i, pdf) \<in> set (filter (\<lambda>r. \<not> accepts (snd r)) (sort outputs))" by simp
  then have "ErrorMerger (fst (i, pdf)) \<in>
      (\<lambda>r. ErrorMerger (fst r)) ` set (filter (\<lambda>r. \<not> accepts (snd r)) (sort outputs))"
    by (rule imageI)
  then have m: "ErrorMerger i \<in> set (printed out)"
    by (simp add: printed_write_pdf [OF ne assms(3)])
  from assms have "(i, pdf) \<in>
      set (filter (\<lambda>r. \<not> accepts (snd r) \<or> snd r = BLANK_PDF_PAGE) (sort outputs))"
    by simp
  then have "fst (i, pdf) \<in>
      fst ` set (filter (\<lambda>r. \<not> accepts (snd r) \<or> snd r = BLANK_PDF_PAGE) (sort outputs))"
    by (rule imageI)
  then have e: "i \<in> set (error_pages out)"
    by (simp add: error_pages_write_pdf [OF assms(3)])
  then have ne2: "error_pages out \<noteq> []" by auto
  have l: "last (printed out) =
      CreatedWithErrors file_name (length outputs) (length (error_pages out)) (error_pages out)"
    using ne2 by (simp add: printed_write_pdf [OF ne assms(3)])
  from e m written_write_pdf [OF ne assms(3)] l show ?thesis by blast
qed

text \<open>
  C5 does not hold of the code. The \<open>try\<close> of the loop guards \<open>merger.append\<close> only. A blob
  that \<open>append\<close> takes and that \<open>merger.write\<close> cannot read makes \<open>merger.write\<close>, which is
  outside the \<open>try\<close>, raise: \<open>write_pdf\<close> leaves with the exception, without a merged
  document and without a summary, and the pages that were good are lost with it. Here the
  results are a page of size A5 and a page whose content stream has no \<open>endstream\<close>.
\<close>

theorem write_pdf_write_failure:
  "write_pdf sample_accepts sample_writes [(1, A5_PDF_PAGE), (2, NOEND_PDF_PAGE)] ''book.pdf'' =
     Inl MergerWriteError"
  by code_simp

text \<open>
  C8 (as amended). With an empty list of results \<open>write_pdf\<close> writes no file and prints
  nothing: there is no summary in that case. When no page was enumerated, a run of \<open>main\<close>
  that gets past \<open>join\<close> returns and has printed nothing at all: no warning, no conversion
  error, and nothing from \<open>write_pdf\<close>, which writes no file.
\<close>

theorem write_pdf_empty:
  "write_pdf accepts writes [] file_name = Inr \<lparr>written = None, error_pages = [], printed = []\<rparr>
   \<and> (process_files e path_to_svg [] (Some pattern) = Inr en \<and> number_of_svg_files en = 0
        \<and> joined (main e render accepts writes number_of_CPUs schedule path_to_svg pattern) = Some j
        \<longrightarrow>
        warnings en = [] \<and> job_console j = [] \<and> output_list j = []
        \<and> main e render accepts writes number_of_CPUs schedule path_to_svg pattern =
            Finished j \<lparr>written = None, error_pages = [], printed = []\<rparr>)"
proof -
  have a: "write_pdf accepts writes [] file_name =
      Inr \<lparr>written = None, error_pages = [], printed = []\<rparr>"
    for file_name
    by (simp add: write_pdf_def)
  have b: "warnings en = [] \<and> job_console j = [] \<and> output_list j = []
        \<and> main e render accepts writes number_of_CPUs schedule path_to_svg pattern =
            Finished j \<lparr>written = None, error_pages = [], printed = []\<rparr>"
    if p: "process_files e path_to_svg [] (Some pattern) = Inr en"
      and z: "number_of_svg_files en = 0"
      and m: "joined (main e render accepts writes number_of_CPUs schedule path_to_svg pattern) = Some j"
  proof -
    from process_files_no_svg [OF p z] have q: "queue en = []" and w: "warnings en = []"
      by blast+
    let ?j = "run render schedule (start (queue en) number_of_CPUs)"
    from m p have ex: "all_exited ?j" and j: "j = ?j"
      by (auto simp: main_def Let_def split: if_splits sum.splits)
    have "in_hand (replicate number_of_CPUs AtWhile) = []"
      by (induction number_of_CPUs) simp_all
    then have "output_list (run render schedule (start [] number_of_CPUs)) = []
        \<and> job_console (run render schedule (start [] number_of_CPUs)) = []"
      by (intro no_tasks_run) (simp_all add: start_def)
    with j q have o: "output_list j = []" and c: "job_console j = []" by simp_all
    from p ex j o have "main e render accepts writes number_of_CPUs schedule path_to_svg pattern =
            Finished j \<lparr>written = None, error_pages = [], printed = []\<rparr>"
      by (simp add: main_def Let_def a)
    with w o c show ?thesis by simp
  qed
  from a b show ?thesis by blast
qed

theorem write_pdf_empty_witness:
  "process_files sample_env ''empty'' [] (Some default_pattern) =
     Inr \<lparr>pdf_file_name = ''empty.pdf'', number_of_svg_files = 0, queue = [], warnings = []\<rparr>
   \<and> number_of_svg_files
        \<lparr>pdf_file_name = ''empty.pdf'', number_of_svg_files = 0, queue = [], warnings = []\<rparr> = 0
   \<and> joined (main sample_env sample_render sample_accepts sample_writes 2 [Advance 0, Advance 1]
        ''empty'' default_pattern) =
       Some \<lparr>svg_queue = [], output_list = [], processes = [Exited, Exited], job_console = []\<rparr>
   \<and> main sample_env sample_render sample_accepts sample_writes 2 [Advance 0, Advance 1] ''empty''
        default_pattern =
       Finished \<lparr>svg_queue = [], output_list = [], processes = [Exited, Exited], job_console = []\<rparr>
         \<lparr>written = None, error_pages = [], printed = []\<rparr>"
proof -
  let ?en = "\<lparr>pdf_file_name = ''empty.pdf'', number_of_svg_files = 0, queue = [], warnings = []\<rparr>"
  let ?j = "\<lparr>svg_queue = [], output_list = [], processes = [Exited, Exited], job_console = []\<rparr>"
  have z: "number_of_svg_files ?en = 0" by simp
  have m: "joined (main sample_env sample_render sample_accepts sample_writes 2
      [Advance 0, Advance 1] ''empty'' default_pattern) = Some ?j"
    unfolding sample_empty_main by simp
  from write_pdf_empty [of sample_accepts sample_writes "''empty.pdf''" sample_env "''empty''"
      default_pattern ?en sample_render 2 "[Advance 0, Advance 1]" ?j]
    sample_empty_process_files z m
  have "main sample_env sample_render sample_accepts sample_writes 2 [Advance 0, Advance 1]
      ''empty'' default_pattern = Finished ?j \<lparr>written = None, error_pages = [], printed = []\<rparr>"
    by blast
  with sample_empty_process_files z m show ?thesis by blast
qed

text \<open>
  C8 as stated fails: on the empty list nothing at all is printed, and a run of \<open>main\<close> on an
  empty directory ends without any output.
\<close>

theorem write_pdf_empty_counterexample:
  "write_pdf sample_accepts sample_writes [] ''svg_to_pdf.pdf'' =
     Inr \<lparr>written = None, error_pages = [], printed = []\<rparr>
   \<and> main sample_env sample_render sample_accepts sample_writes 2 [Advance 0, Advance 1] ''empty''
        default_pattern =
       Finished \<lparr>svg_queue = [], output_list = [], processes = [Exited, Exited], job_console = []\<rparr>
         \<lparr>written = None, error_pages = [], printed = []\<rparr>"
  using sample_empty_main by (simp add: write_pdf_def)

text \<open>
  C10. A result is a page number and bytes, nothing else. A page rendered successfully to
  bytes equal to \<open>BLANK_PDF_PAGE\<close> gives the result that a failed rendering gives, and its
  page number is listed by \<open>write_pdf\<close>, as is that of every result whose bytes are
  \<open>BLANK_PDF_PAGE\<close>: at the end of the loop the list \<open>error_page\<close> holds exactly the pages that
  the merger rejects or whose bytes are the blank page, and it is the list of the summary when
  \<open>merger.write\<close> returns.
\<close>

theorem fallback_by_bytes:
  "(render svg_data = Some BLANK_PDF_PAGE \<longrightarrow>
      fst (convert render (n, svg_data)) = (n, BLANK_PDF_PAGE))
   \<and> (render svg_data = Some BLANK_PDF_PAGE \<and> fst (convert render (n, svg_data)) \<in> set outputs
        \<and> write_pdf accepts writes outputs file_name = Inr out \<longrightarrow>
        n \<in> set (error_pages out))
   \<and> ((i, BLANK_PDF_PAGE) \<in> set outputs \<and> write_pdf accepts writes outputs file_name = Inr out \<longrightarrow>
        i \<in> set (error_pages out))
   \<and> (write_pdf accepts writes outputs file_name = Inr out \<longrightarrow>
        error_pages out =
          map fst (filter (\<lambda>r. \<not> accepts (snd r) \<or> snd r = BLANK_PDF_PAGE) (sort outputs)))
   \<and> error_page (append_pages accepts (sort outputs)
        \<lparr>merger = [], error_page = [], console = []\<rparr>) =
       map fst (filter (\<lambda>r. \<not> accepts (snd r) \<or> snd r = BLANK_PDF_PAGE) (sort outputs))"
proof -
  have listed: "i \<in> set (error_pages out)"
    if "(i, BLANK_PDF_PAGE) \<in> set outputs" and w: "write_pdf accepts writes outputs file_name = Inr out"
    for i
  proof -
    from that have "(i, BLANK_PDF_PAGE) \<in>
        set (filter (\<lambda>r. \<not> accepts (snd r) \<or> snd r = BLANK_PDF_PAGE) (sort outputs))"
      by simp
    then have "fst (i, BLANK_PDF_PAGE) \<in>
        fst ` set (filter (\<lambda>r. \<not> accepts (snd r) \<or> snd r = BLANK_PDF_PAGE) (sort outputs))"
      by (rule imageI)
    then show ?thesis by (simp add: error_pages_write_pdf [OF w])
  qed
  have same: "fst (convert render (n, svg_data)) = (n, BLANK_PDF_PAGE)"
    if "render svg_data = Some BLANK_PDF_PAGE"
    using that by (simp add: convert_def)
  have rendered: "n \<in> set (error_pages out)"
    if "render svg_data = Some BLANK_PDF_PAGE" and "fst (convert render (n, svg_data)) \<in> set outputs"
      and "write_pdf accepts writes outputs file_name = Inr out"
    using that same listed by simp
  have loop: "error_page (append_pages accepts (sort outputs)
        \<lparr>merger = [], error_page = [], console = []\<rparr>) =
       map fst (filter (\<lambda>r. \<not> accepts (snd r) \<or> snd r = BLANK_PDF_PAGE) (sort outputs))"
    by (simp add: error_page_append_pages)
  from listed same rendered loop error_pages_write_pdf show ?thesis by blast
qed

lemma sample_fallback_write_pdf:
  "write_pdf sample_accepts sample_writes
     [(2, A5_PDF_PAGE), fst (convert blank_render (1, ''svg1''))] ''book.pdf'' =
   Inr \<lparr>written = Some (''book.pdf'', [BLANK_PDF_PAGE, A5_PDF_PAGE]), error_pages = [1],
        printed = [CreatedWithErrors ''book.pdf'' 2 1 [1]]\<rparr>"
  by code_simp

theorem fallback_by_bytes_witness:
  "blank_render ''svg1'' = Some BLANK_PDF_PAGE
   \<and> fst (convert blank_render (1, ''svg1'')) = (1, BLANK_PDF_PAGE)
   \<and> fst (convert blank_render (1, ''svg1'')) \<in>
       set [(2, A5_PDF_PAGE), fst (convert blank_render (1, ''svg1''))]
   \<and> sample_accepts BLANK_PDF_PAGE
   \<and> write_pdf sample_accepts sample_writes
       [(2, A5_PDF_PAGE), fst (convert blank_render (1, ''svg1''))] ''book.pdf'' =
     Inr \<lparr>written = Some (''book.pdf'', [BLANK_PDF_PAGE, A5_PDF_PAGE]), error_pages = [1],
          printed = [CreatedWithErrors ''book.pdf'' 2 1 [1]]\<rparr>
   \<and> 1 \<in> set (error_pages
       \<lparr>written = Some (''book.pdf'', [BLANK_PDF_PAGE, A5_PDF_PAGE]), error_pages = [1],
        printed = [CreatedWithErrors ''book.pdf'' 2 1 [1]]\<rparr>)"
proof -
  let ?outputs = "[(2 :: int, A5_PDF_PAGE), fst (convert blank_render (1, ''svg1''))]"
  let ?out = "\<lparr>written = Some (''book.pdf'', [BLANK_PDF_PAGE, A5_PDF_PAGE]), error_pages = [1],
        printed = [CreatedWithErrors ''book.pdf'' 2 1 [1]]\<rparr>"
  have h1: "blank_render ''svg1'' = Some BLANK_PDF_PAGE" by (simp add: blank_render_def)
  have h2: "fst (convert blank_render (1, ''svg1'')) \<in> set ?outputs" by simp
  note t = fallback_by_bytes [of blank_render "''svg1''" 1 ?outputs sample_accepts sample_writes
      "''book.pdf''" ?out]
  from t h1 have r1: "fst (convert blank_render (1, ''svg1'')) = (1, BLANK_PDF_PAGE)" by blast
  from t h1 h2 sample_fallback_write_pdf have r2: "1 \<in> set (error_pages ?out)"
    by blast
  from h1 r1 h2 sample_accepts_blobs(1) sample_fallback_write_pdf r2 show ?thesis by blast
qed

section \<open>The claims about process\_files\<close>

text \<open>
  C6 (as amended). When the pattern compiles, \<open>process_files\<close> raises the
  \<open>TypeError\<close> "Directory or zip file is required." exactly when both tests of the code
  fail on the path, \<open>os.path.isdir\<close> and \<open>zipfile.is_zipfile\<close>, and \<open>main\<close> then ends with
  that exception, before any process exists. A path that passes \<open>is_zipfile\<close> and that
  \<open>ZipFile\<close> cannot open raises \<open>BadZipFile\<close> instead. When the pattern does not compile,
  \<open>re.compile\<close> raises first, whatever the path.
\<close>

theorem input_error_iff:
  "(re_compiles e (pattern_or_default pattern_arg) \<longrightarrow>
      (process_files e path q pattern_arg = Inl (TypeError ''Directory or zip file is required.'')
       \<longleftrightarrow> \<not> isdir e path \<and> \<not> is_zipfile e path))
   \<and> (re_compiles e (pattern_or_default (Some pattern)) \<and> \<not> isdir e path \<and> \<not> is_zipfile e path \<longrightarrow>
        main e render accepts writes number_of_CPUs schedule path pattern =
          Raised (TypeError ''Directory or zip file is required.''))
   \<and> (re_compiles e (pattern_or_default pattern_arg) \<and> \<not> isdir e path \<and> is_zipfile e path
        \<and> \<not> zip_opens e path \<longrightarrow>
        process_files e path q pattern_arg = Inl BadZipFile)
   \<and> (\<not> re_compiles e (pattern_or_default pattern_arg) \<longrightarrow>
        process_files e path q pattern_arg = Inl ReError)"
proof -
  have a: "process_files e path q pattern_arg = Inl (TypeError ''Directory or zip file is required.'')
       \<longleftrightarrow> \<not> isdir e path \<and> \<not> is_zipfile e path"
    if c: "re_compiles e (pattern_or_default pattern_arg)"
  proof
    assume r: "process_files e path q pattern_arg = Inl (TypeError ''Directory or zip file is required.'')"
    show "\<not> isdir e path \<and> \<not> is_zipfile e path"
    proof (rule ccontr)
      assume "\<not> (\<not> isdir e path \<and> \<not> is_zipfile e path)"
      then have "isdir e path \<or> is_zipfile e path" by blast
      from process_files_archive_error [OF c this r] show False
        by (simp add: int_type_error_def)
    qed
  next
    assume "\<not> isdir e path \<and> \<not> is_zipfile e path"
    with c show "process_files e path q pattern_arg = Inl (TypeError ''Directory or zip file is required.'')"
      by (simp add: process_files_neither)
  qed
  have b: "main e render accepts writes number_of_CPUs schedule path pattern =
          Raised (TypeError ''Directory or zip file is required.'')"
    if "re_compiles e (pattern_or_default (Some pattern))" and "\<not> isdir e path" and "\<not> is_zipfile e path"
    using that by (simp add: main_def process_files_neither)
  from a b process_files_bad_zip process_files_re_error show ?thesis by blast
qed

theorem input_error_iff_witness:
  "re_compiles sample_env (pattern_or_default None)
   \<and> \<not> isdir sample_env ''nothing'' \<and> \<not> is_zipfile sample_env ''nothing''
   \<and> process_files sample_env ''nothing'' [] None = Inl (TypeError ''Directory or zip file is required.'')
   \<and> re_compiles sample_env (pattern_or_default (Some default_pattern))
   \<and> main sample_env sample_render sample_accepts sample_writes 2 [Advance 0] ''nothing''
        default_pattern =
       Raised (TypeError ''Directory or zip file is required.'')
   \<and> \<not> isdir sample_env ''damaged.zip'' \<and> is_zipfile sample_env ''damaged.zip''
   \<and> \<not> zip_opens sample_env ''damaged.zip''
   \<and> process_files sample_env ''damaged.zip'' [] None = Inl BadZipFile
   \<and> \<not> re_compiles sample_env (pattern_or_default (Some ''(''))
   \<and> process_files sample_env ''book'' [] (Some ''('') = Inl ReError"
proof -
  have c1: "re_compiles sample_env (pattern_or_default None)"
    by (simp add: sample_env_def pattern_or_default_def default_pattern_def)
  have c2: "re_compiles sample_env (pattern_or_default (Some default_pattern))"
    by (simp add: sample_env_def pattern_or_default_def default_pattern_def)
  have c3: "\<not> re_compiles sample_env (pattern_or_default (Some ''(''))"
    by (simp add: sample_env_def pattern_or_default_def)
  have n: "\<not> isdir sample_env ''nothing''" "\<not> is_zipfile sample_env ''nothing''"
    by (simp_all add: sample_env_def)
  have d: "\<not> isdir sample_env ''damaged.zip''" "is_zipfile sample_env ''damaged.zip''"
    "\<not> zip_opens sample_env ''damaged.zip''"
    by (simp_all add: sample_env_def)
  note t1 = input_error_iff [of sample_env None "''nothing''" "[]" default_pattern
      sample_render sample_accepts sample_writes 2 "[Advance 0]"]
  note t2 = input_error_iff [of sample_env "Some ''(''" "''book''" "[]"]
  note t3 = input_error_iff [of sample_env None "''damaged.zip''" "[]"]
  from t1 c1 n
  have "process_files sample_env ''nothing'' [] None = Inl (TypeError ''Directory or zip file is required.'')"
    by blast
  moreover from t1 c2 n
  have "main sample_env sample_render sample_accepts sample_writes 2 [Advance 0] ''nothing''
      default_pattern = Raised (TypeError ''Directory or zip file is required.'')"
    by blast
  moreover from t2 c3 have "process_files sample_env ''book'' [] (Some ''('') = Inl ReError"
    by blast
  moreover from t3 c1 d have "process_files sample_env ''damaged.zip'' [] None = Inl BadZipFile"
    by blast
  ultimately show ?thesis using c1 c2 c3 n d by blast
qed

text \<open>
  C6 as stated fails when the pattern does not compile: on a path that is neither a directory
  nor an archive the exception is that of \<open>re.compile\<close>, not the \<open>TypeError\<close> of the path;
  and the same exception is raised on a path that is a directory.
\<close>

theorem input_error_iff_counterexample:
  "\<not> isdir sample_env ''nothing'' \<and> \<not> is_zipfile sample_env ''nothing''
   \<and> process_files sample_env ''nothing'' [] (Some ''('') = Inl ReError
   \<and> isdir sample_env ''book''
   \<and> process_files sample_env ''book'' [] (Some ''('') = Inl ReError"
  by (simp add: process_files_def sample_env_def pattern_or_default_def)



text \<open>
  C9. When the pattern matches in the file name and the last match is a string that \<open>int\<close>
  does not read, \<open>page_number\<close> raises \<open>ValueError\<close>: nothing catches it, so the loop stops
  at that file, and when such a file is among those kept (in a directory, or in an archive
  that opens), \<open>process_files\<close> and \<open>main\<close> end with an exception of \<open>int\<close> instead of giving
  the page the number 0.
\<close>

theorem value_error_aborts:
  "findall e pattern file_name \<noteq> [] \<and> last (findall e pattern file_name) = Str s
     \<and> str_to_int e s = None \<longrightarrow>
     page_number e file_name pattern = Inl ValueError
     \<and> (keep file_name \<longrightarrow>
          put_files e pattern keep ((file_name, svg_data) # rest) st = Inl ValueError)
     \<and> (re_compiles e pattern \<and> pattern \<noteq> []
          \<and> (isdir e path \<and> (file_name, svg_data) \<in> set (walk e path)
                \<and> endswith file_name ''.svg''
              \<or> \<not> isdir e path \<and> is_zipfile e path \<and> zip_opens e path
                \<and> (file_name, svg_data) \<in> set (zip_members e path)
                \<and> endswith (lower file_name) ''.svg'') \<longrightarrow>
          (\<exists>err. (err = ValueError \<or> err = int_type_error)
              \<and> process_files e path q (Some pattern) = Inl err)
          \<and> (\<exists>err. (err = ValueError \<or> err = int_type_error)
              \<and> main e render accepts writes number_of_CPUs schedule path pattern = Raised err))"
proof (intro impI)
  assume bad: "findall e pattern file_name \<noteq> [] \<and> last (findall e pattern file_name) = Str s
     \<and> str_to_int e s = None"
  then have pn: "page_number e file_name pattern = Inl ValueError"
    by (cases "findall e pattern file_name") (simp_all add: page_number_def)
  have step: "put_files e pattern keep ((file_name, svg_data) # rest) st = Inl ValueError"
    if "keep file_name"
    using that pn by (cases st) simp
  have abort: "\<exists>err. (err = ValueError \<or> err = int_type_error)
              \<and> process_files e path q (Some pattern) = Inl err"
    if c: "re_compiles e pattern" and ne: "pattern \<noteq> []"
      and l: "isdir e path \<and> (file_name, svg_data) \<in> set (walk e path)
                \<and> endswith file_name ''.svg''
              \<or> \<not> isdir e path \<and> is_zipfile e path \<and> zip_opens e path
                \<and> (file_name, svg_data) \<in> set (zip_members e path)
                \<and> endswith (lower file_name) ''.svg''"
    for q
  proof -
    from ne have p: "pattern_or_default (Some pattern) = pattern"
      by (simp add: pattern_or_default_def)
    with c have c': "re_compiles e (pattern_or_default (Some pattern))" by simp
    from l have d: "isdir e path \<or> is_zipfile e path \<and> zip_opens e path" by blast
    have "\<exists>err. process_files e path q (Some pattern) = Inl err"
    proof (cases "isdir e path")
      case True
      with l have "(file_name, svg_data) \<in> set (walk e path)" and "endswith file_name ''.svg''"
        by blast+
      from put_files_bad_file [of file_name svg_data "walk e path" "\<lambda>file. endswith file ''.svg''",
          OF this pn]
      obtain err where "put_files e pattern (\<lambda>file. endswith file ''.svg'') (walk e path) (q, []) = Inl err"
        by blast
      then show ?thesis
        unfolding process_files_dir [OF c' True] p by simp
    next
      case False
      with l have z: "is_zipfile e path" and o: "zip_opens e path"
        and m: "(file_name, svg_data) \<in> set (zip_members e path)"
          "endswith (lower file_name) ''.svg''"
        by blast+
      from put_files_bad_file [of file_name svg_data "zip_members e path"
          "\<lambda>file. endswith (lower file) ''.svg''", OF m pn]
      obtain err where
        "put_files e pattern (\<lambda>file. endswith (lower file) ''.svg'') (zip_members e path) (q, []) = Inl err"
        by blast
      then show ?thesis
        unfolding process_files_zip [OF c' False z o] p by simp
    qed
    then obtain err where r: "process_files e path q (Some pattern) = Inl err" by blast
    from process_files_listing_error [OF c' d r] r show ?thesis by blast
  qed
  have abort_main: "\<exists>err. (err = ValueError \<or> err = int_type_error)
              \<and> main e render accepts writes number_of_CPUs schedule path pattern = Raised err"
    if "re_compiles e pattern" and "pattern \<noteq> []"
      and "isdir e path \<and> (file_name, svg_data) \<in> set (walk e path)
                \<and> endswith file_name ''.svg''
              \<or> \<not> isdir e path \<and> is_zipfile e path \<and> zip_opens e path
                \<and> (file_name, svg_data) \<in> set (zip_members e path)
                \<and> endswith (lower file_name) ''.svg''"
  proof -
    from abort [OF that, of "[]"] obtain err where "err = ValueError \<or> err = int_type_error"
      and "process_files e path [] (Some pattern) = Inl err"
      by blast
    then show ?thesis by (auto simp: main_def)
  qed
  from pn step abort abort_main
  show "page_number e file_name pattern = Inl ValueError
     \<and> (keep file_name \<longrightarrow>
          put_files e pattern keep ((file_name, svg_data) # rest) st = Inl ValueError)
     \<and> (re_compiles e pattern \<and> pattern \<noteq> []
          \<and> (isdir e path \<and> (file_name, svg_data) \<in> set (walk e path)
                \<and> endswith file_name ''.svg''
              \<or> \<not> isdir e path \<and> is_zipfile e path \<and> zip_opens e path
                \<and> (file_name, svg_data) \<in> set (zip_members e path)
                \<and> endswith (lower file_name) ''.svg'') \<longrightarrow>
          (\<exists>err. (err = ValueError \<or> err = int_type_error)
              \<and> process_files e path q (Some pattern) = Inl err)
          \<and> (\<exists>err. (err = ValueError \<or> err = int_type_error)
              \<and> main e render accepts writes number_of_CPUs schedule path pattern = Raised err))"
    by blast
qed

theorem value_error_aborts_witness:
  "findall sample_env ''[a-z]+'' ''page_3.svg'' \<noteq> []
   \<and> last (findall sample_env ''[a-z]+'' ''page_3.svg'') = Str ''svg''
   \<and> str_to_int sample_env ''svg'' = None
   \<and> page_number sample_env ''page_3.svg'' ''[a-z]+'' = Inl ValueError
   \<and> re_compiles sample_env ''[a-z]+'' \<and> isdir sample_env ''book''
   \<and> (''page_3.svg'', ''svg3'') \<in> set (walk sample_env ''book'')
   \<and> endswith ''page_3.svg'' ''.svg''
   \<and> process_files sample_env ''book'' [] (Some ''[a-z]+'') = Inl ValueError
   \<and> main sample_env sample_render sample_accepts sample_writes 2 [] ''book'' ''[a-z]+'' = Raised ValueError"
proof -
  have h1: "findall sample_env ''[a-z]+'' ''page_3.svg'' \<noteq> []"
    and h2: "last (findall sample_env ''[a-z]+'' ''page_3.svg'') = Str ''svg''"
    by (simp_all add: sample_findall_letters)
  have h3: "str_to_int sample_env ''svg'' = None" by (rule sample_int_svg)
  have h4: "re_compiles sample_env ''[a-z]+''" "isdir sample_env ''book''"
    by (simp_all add: sample_env_def)
  have h5: "(''page_3.svg'', ''svg3'') \<in> set (walk sample_env ''book'')"
    by (simp add: sample_walk_book)
  have h6: "endswith ''page_3.svg'' ''.svg''" by (rule sample_endswith)
  note t = value_error_aborts [of sample_env "''[a-z]+''" "''page_3.svg''" "''svg''"
      "\<lambda>name. endswith name ''.svg''" "''svg3''" "[]" "([], [])" "''book''" "[]"
      sample_render sample_accepts sample_writes 2 "[]"]
  from t h1 h2 h3 have r1: "page_number sample_env ''page_3.svg'' ''[a-z]+'' = Inl ValueError"
    by blast
  have ne: "''[a-z]+'' \<noteq> []" by simp
  from t h1 h2 h3 h4 h5 h6 ne
  have "\<exists>err. (err = ValueError \<or> err = int_type_error)
              \<and> process_files sample_env ''book'' [] (Some ''[a-z]+'') = Inl err"
    by blast
  with sample_letters_process_files sample_letters_main h1 h2 h3 h4 h5 h6 r1
  show ?thesis by blast
qed

section \<open>The claims about the worker pool\<close>

text \<open>
  C2. When \<open>main\<close> has got past \<open>join\<close> with at least one process, all processes have
  returned, the queue is empty, and the output list has exactly as many results as tasks were
  enumerated: the page numbers of the results are those of the tasks, each as often as it was
  enumerated. \<open>main\<close> then ends as \<open>write_pdf\<close> does on that list.
\<close>

theorem no_task_lost:
  assumes "joined (main e render accepts writes number_of_CPUs schedule path_to_svg pattern) = Some j"
    and "0 < number_of_CPUs"
  shows "\<exists>en. process_files e path_to_svg [] (Some pattern) = Inr en
            \<and> all_exited j
            \<and> length (output_list j) = number_of_svg_files en
            \<and> mset (map fst (output_list j)) = mset (map fst (queue en))
            \<and> svg_queue j = []
            \<and> main e render accepts writes number_of_CPUs schedule path_to_svg pattern =
                (case write_pdf accepts writes (output_list j) (pdf_file_name en) of
                   Inl err \<Rightarrow> Aborted j err
                 | Inr out \<Rightarrow> Finished j out)"
proof (cases "process_files e path_to_svg [] (Some pattern)")
  case (Inl err)
  with assms(1) show ?thesis by (simp add: main_def)
next
  case (Inr en)
  let ?j = "run render schedule (start (queue en) number_of_CPUs)"
  from assms(1) Inr have ex: "all_exited ?j" and j: "j = ?j"
    by (auto simp: main_def Let_def split: if_splits sum.splits)
  from Inr ex
  have mn: "main e render accepts writes number_of_CPUs schedule path_to_svg pattern =
                (case write_pdf accepts writes (output_list ?j) (pdf_file_name en) of
                   Inl err \<Rightarrow> Aborted ?j err
                 | Inr out \<Rightarrow> Finished ?j out)"
    by (simp add: main_def Let_def)
  from run_complete [OF assms(2) ex]
  have q: "svg_queue ?j = []"
    and m: "mset (output_list ?j) = mset (map (result_of render) (queue en))"
    by blast+
  from m have "mset (map fst (output_list ?j)) = mset (map fst (map (result_of render) (queue en)))"
    by (metis mset_map)
  then have m1: "mset (map fst (output_list ?j)) = mset (map fst (queue en))"
    by (simp add: fst_result_of comp_def)
  from m have "size (mset (output_list ?j)) = size (mset (map (result_of render) (queue en)))"
    by simp
  then have "length (output_list ?j) = length (queue en)" by simp
  with number_of_svg_files_process_files [OF Inr]
  have l: "length (output_list ?j) = number_of_svg_files en" by simp
  from Inr ex mn q m1 l show ?thesis unfolding j by blast
qed

theorem no_task_lost_witness:
  "joined (main sample_env sample_render sample_accepts sample_writes 2 sample_schedule ''book''
     default_pattern) =
   Some \<lparr>svg_queue = [],
         output_list = [(3, LETTER_PDF_PAGE), (1, A5_PDF_PAGE), (0, BLANK_PDF_PAGE)],
         processes = [Exited, Exited], job_console = [ErrorConverting]\<rparr>
   \<and> (0 :: nat) < 2
   \<and> (\<exists>en. process_files sample_env ''book'' [] (Some default_pattern) = Inr en
          \<and> number_of_svg_files en = 3)"
proof -
  have h1: "joined (main sample_env sample_render sample_accepts sample_writes 2 sample_schedule
      ''book'' default_pattern) =
    Some \<lparr>svg_queue = [],
         output_list = [(3, LETTER_PDF_PAGE), (1, A5_PDF_PAGE), (0, BLANK_PDF_PAGE)],
         processes = [Exited, Exited], job_console = [ErrorConverting]\<rparr>"
    unfolding sample_main by simp
  have h2: "(0 :: nat) < 2" by simp
  from no_task_lost [OF h1 h2]
  obtain en where "process_files sample_env ''book'' [] (Some default_pattern) = Inr en"
    and "length [(3 :: int, LETTER_PDF_PAGE), (1, A5_PDF_PAGE), (0, BLANK_PDF_PAGE)] =
         number_of_svg_files en"
    by auto
  then have "\<exists>en. process_files sample_env ''book'' [] (Some default_pattern) = Inr en
          \<and> number_of_svg_files en = 3"
    by auto
  with h1 h2 show ?thesis by blast
qed

text \<open>
  C3. A process that holds a pulled task appends exactly one result: the rendered bytes, or
  \<open>BLANK_PDF_PAGE\<close> when the renderer raises. It is then back at the head of its loop, and no
  other process is touched. Over a whole run that ends with all processes returned, the
  output list holds one such result for each task.
\<close>

theorem one_result_per_task:
  "(i < length (processes j) \<and> processes j ! i = Converting (n, svg_data) \<longrightarrow>
      convert_svg_to_pdf render (Advance i) j =
        j\<lparr>output_list := output_list j @
             [(n, case render svg_data of Some pdf_content \<Rightarrow> pdf_content | None \<Rightarrow> BLANK_PDF_PAGE)],
          job_console := job_console j @
             (case render svg_data of Some pdf_content \<Rightarrow> [] | None \<Rightarrow> [ErrorConverting]),
          processes := (processes j)[i := AtWhile]\<rparr>
      \<and> (\<forall>k. k \<noteq> i \<longrightarrow>
            processes (convert_svg_to_pdf render (Advance i) j) ! k = processes j ! k))
   \<and> (0 < number_of_CPUs \<and> all_exited (run render schedule (start tasks number_of_CPUs)) \<longrightarrow>
        mset (output_list (run render schedule (start tasks number_of_CPUs))) =
        mset (map (\<lambda>t. (fst t, case render (snd t) of Some pdf_content \<Rightarrow> pdf_content
                                 | None \<Rightarrow> BLANK_PDF_PAGE)) tasks))"
proof -
  have a: "convert_svg_to_pdf render (Advance i) j =
        j\<lparr>output_list := output_list j @
             [(n, case render svg_data of Some pdf_content \<Rightarrow> pdf_content | None \<Rightarrow> BLANK_PDF_PAGE)],
          job_console := job_console j @
             (case render svg_data of Some pdf_content \<Rightarrow> [] | None \<Rightarrow> [ErrorConverting]),
          processes := (processes j)[i := AtWhile]\<rparr>"
    if "i < length (processes j)" and "processes j ! i = Converting (n, svg_data)"
    using that by (simp add: convert_def split: option.splits)
  have b: "processes (convert_svg_to_pdf render (Advance i) j) ! k = processes j ! k"
    if "i < length (processes j)" and "processes j ! i = Converting (n, svg_data)" and "k \<noteq> i" for k
    using that by (simp add: a)
  have c: "mset (output_list (run render schedule (start tasks number_of_CPUs))) =
        mset (map (\<lambda>t. (fst t, case render (snd t) of Some pdf_content \<Rightarrow> pdf_content
                                 | None \<Rightarrow> BLANK_PDF_PAGE)) tasks)"
    if "0 < number_of_CPUs" and "all_exited (run render schedule (start tasks number_of_CPUs))"
    using run_complete(2) [OF that] by (simp add: result_of_eq [abs_def])
  from a b c show ?thesis by blast
qed

theorem one_result_per_task_witness:
  "run sample_render (take 10 sample_schedule) (start sample_tasks 2) =
        \<lparr>svg_queue = [],
         output_list = [(3, LETTER_PDF_PAGE), (1, A5_PDF_PAGE)],
         processes = [Converting (0, ''svg0''), AtWhile], job_console = []\<rparr>
   \<and> (0 :: nat) < length [Converting (0, ''svg0''), AtWhile]
   \<and> [Converting (0, ''svg0''), AtWhile] ! 0 = Converting (0, ''svg0'')
   \<and> sample_render ''svg0'' = None
   \<and> convert_svg_to_pdf sample_render (Advance 0)
        \<lparr>svg_queue = [],
         output_list = [(3, LETTER_PDF_PAGE), (1, A5_PDF_PAGE)],
         processes = [Converting (0, ''svg0''), AtWhile], job_console = []\<rparr> =
        \<lparr>svg_queue = [],
         output_list = [(3, LETTER_PDF_PAGE), (1, A5_PDF_PAGE), (0, BLANK_PDF_PAGE)],
         processes = [AtWhile, AtWhile], job_console = [ErrorConverting]\<rparr>
   \<and> (0 :: nat) < 2
   \<and> all_exited (run sample_render sample_schedule (start sample_tasks 2))
   \<and> mset (output_list (run sample_render sample_schedule (start sample_tasks 2))) =
       mset [(0, BLANK_PDF_PAGE), (1, A5_PDF_PAGE), (3, LETTER_PDF_PAGE)]"
proof -
  let ?j = "\<lparr>svg_queue = [],
         output_list = [(3 :: int, LETTER_PDF_PAGE), (1, A5_PDF_PAGE)],
         processes = [Converting (0, ''svg0''), AtWhile], job_console = []\<rparr>"
  have h1: "0 < length (processes ?j) \<and> processes ?j ! 0 = Converting (0, ''svg0'')" by simp
  have h2: "sample_render ''svg0'' = None" by (simp add: sample_render_def)
  have h3: "(0 :: nat) < 2 \<and> all_exited (run sample_render sample_schedule (start sample_tasks 2))"
    by (simp add: sample_run all_exited_def)
  note t = one_result_per_task [of 0 ?j 0 "''svg0''" sample_render 2 sample_schedule sample_tasks]
  from t h1 have "convert_svg_to_pdf sample_render (Advance 0) ?j =
        ?j\<lparr>output_list := output_list ?j @
             [(0, case sample_render ''svg0'' of Some pdf_content \<Rightarrow> pdf_content | None \<Rightarrow> BLANK_PDF_PAGE)],
          job_console := job_console ?j @
             (case sample_render ''svg0'' of Some pdf_content \<Rightarrow> [] | None \<Rightarrow> [ErrorConverting]),
          processes := (processes ?j)[0 := AtWhile]\<rparr>"
    by blast
  then have r1: "convert_svg_to_pdf sample_render (Advance 0) ?j =
        \<lparr>svg_queue = [],
         output_list = [(3, LETTER_PDF_PAGE), (1, A5_PDF_PAGE), (0, BLANK_PDF_PAGE)],
         processes = [AtWhile, AtWhile], job_console = [ErrorConverting]\<rparr>"
    by (simp add: h2)
  from t h3 have "mset (output_list (run sample_render sample_schedule (start sample_tasks 2))) =
        mset (map (\<lambda>t. (fst t, case sample_render (snd t) of Some pdf_content \<Rightarrow> pdf_content
                                 | None \<Rightarrow> BLANK_PDF_PAGE)) sample_tasks)"
    by blast
  then have r2: "mset (output_list (run sample_render sample_schedule (start sample_tasks 2))) =
       mset [(0, BLANK_PDF_PAGE), (1, A5_PDF_PAGE), (3, LETTER_PDF_PAGE)]"
    by (simp add: sample_tasks_def sample_render_def)
  from sample_run_prefix h1 h2 h3 r1 r2 show ?thesis by simp
qed

text \<open>
  C4. A process whose \<open>get_nowait\<close> raises \<open>Empty\<close>, on a queue emptied since its test or
  on one that still holds tasks, goes back to the test of the loop. A process returns only
  from that test and only on an empty queue; in every state that a run reaches, if a process
  has returned the queue is empty.
\<close>

theorem exit_only_on_empty_queue:
  "(i < length (processes j) \<and> processes j ! i = AtGet \<longrightarrow>
      convert_svg_to_pdf render (PullEmpty i) j = j\<lparr>processes := (processes j)[i := AtWhile]\<rparr>
      \<and> (svg_queue j = [] \<longrightarrow>
           convert_svg_to_pdf render (Advance i) j = j\<lparr>processes := (processes j)[i := AtWhile]\<rparr>))
   \<and> (i < length (processes j) \<and> processes j ! i \<noteq> Exited
        \<and> processes (convert_svg_to_pdf render ev j) ! i = Exited \<longrightarrow>
        processes j ! i = AtWhile \<and> svg_queue j = [])
   \<and> (Exited \<in> set (processes (run render schedule (start tasks number_of_CPUs))) \<longrightarrow>
        svg_queue (run render schedule (start tasks number_of_CPUs)) = [])"
proof -
  have a: "convert_svg_to_pdf render (PullEmpty i) j = j\<lparr>processes := (processes j)[i := AtWhile]\<rparr>"
    if "i < length (processes j)" and "processes j ! i = AtGet"
    using that by simp
  have b: "convert_svg_to_pdf render (Advance i) j = j\<lparr>processes := (processes j)[i := AtWhile]\<rparr>"
    if "i < length (processes j)" and "processes j ! i = AtGet" and "svg_queue j = []"
    using that by simp
  have c: "processes j ! i = AtWhile \<and> svg_queue j = []"
    if "i < length (processes j)" and "processes j ! i \<noteq> Exited"
      and "processes (convert_svg_to_pdf render ev j) ! i = Exited"
  proof (cases ev)
    case (Advance k)
    show ?thesis
    proof (cases "k < length (processes j)")
      case False
      with that Advance show ?thesis by simp
    next
      case True
      with that Advance show ?thesis
        by (cases "processes j ! k"; cases "svg_queue j"; cases "k = i") auto
    qed
  next
    case (PullEmpty k)
    with that show ?thesis
      by (cases "k = i") (auto split: if_splits)
  qed
  have d: "Exited \<in> set (processes (run render schedule (start tasks number_of_CPUs))) \<longrightarrow>
        svg_queue (run render schedule (start tasks number_of_CPUs)) = []"
    by (rule exited_run) (simp add: start_def)
  from a b c d show ?thesis by blast
qed

theorem exit_only_on_empty_queue_witness:
  "run sample_render [Advance 0, Advance 1, Advance 0] (start [(1, ''svg1'')] 2) =
     \<lparr>svg_queue = [], output_list = [],
      processes = [Converting (1, ''svg1''), AtGet], job_console = []\<rparr>
   \<and> convert_svg_to_pdf sample_render (Advance 1)
       \<lparr>svg_queue = [], output_list = [],
        processes = [Converting (1, ''svg1''), AtGet], job_console = []\<rparr> =
       \<lparr>svg_queue = [], output_list = [],
        processes = [Converting (1, ''svg1''), AtWhile], job_console = []\<rparr>
   \<and> convert_svg_to_pdf sample_render (PullEmpty 1)
       \<lparr>svg_queue = [(2, ''svg2'')], output_list = [],
        processes = [Converting (1, ''svg1''), AtGet], job_console = []\<rparr> =
       \<lparr>svg_queue = [(2, ''svg2'')], output_list = [],
        processes = [Converting (1, ''svg1''), AtWhile], job_console = []\<rparr>
   \<and> processes (convert_svg_to_pdf sample_render (Advance 1)
       \<lparr>svg_queue = [], output_list = [],
        processes = [Converting (1, ''svg1''), AtWhile], job_console = []\<rparr>) ! 1 = Exited
   \<and> Exited \<in> set (processes (run sample_render sample_schedule (start sample_tasks 2)))
   \<and> svg_queue (run sample_render sample_schedule (start sample_tasks 2)) = []"
proof -
  let ?a = "\<lparr>svg_queue = [], output_list = [],
        processes = [Converting (1, ''svg1''), AtGet], job_console = []\<rparr>"
  let ?b = "\<lparr>svg_queue = [(2 :: int, ''svg2'')], output_list = [],
        processes = [Converting (1, ''svg1''), AtGet], job_console = []\<rparr>"
  let ?c = "\<lparr>svg_queue = [], output_list = [],
        processes = [Converting (1, ''svg1''), AtWhile], job_console = []\<rparr>"
  have ha: "1 < length (processes ?a) \<and> processes ?a ! 1 = AtGet" "svg_queue ?a = []" by simp_all
  have hb: "1 < length (processes ?b) \<and> processes ?b ! 1 = AtGet" by simp
  have hc: "1 < length (processes ?c) \<and> processes ?c ! 1 \<noteq> Exited
        \<and> processes (convert_svg_to_pdf sample_render (Advance 1) ?c) ! 1 = Exited"
    by simp
  have hd: "Exited \<in> set (processes (run sample_render sample_schedule (start sample_tasks 2)))"
    by (simp add: sample_run)
  note ta = exit_only_on_empty_queue [of 1 ?a sample_render]
  note tb = exit_only_on_empty_queue [of 1 ?b sample_render]
  note tc = exit_only_on_empty_queue [of 1 ?c sample_render "Advance 1" sample_schedule sample_tasks 2]
  from ta ha have "convert_svg_to_pdf sample_render (Advance 1) ?a =
      ?a\<lparr>processes := (processes ?a)[1 := AtWhile]\<rparr>"
    by blast
  then have r1: "convert_svg_to_pdf sample_render (Advance 1) ?a = ?c" by simp
  from tb hb have "convert_svg_to_pdf sample_render (PullEmpty 1) ?b =
      ?b\<lparr>processes := (processes ?b)[1 := AtWhile]\<rparr>"
    by blast
  then have r2: "convert_svg_to_pdf sample_render (PullEmpty 1) ?b =
       \<lparr>svg_queue = [(2, ''svg2'')], output_list = [],
        processes = [Converting (1, ''svg1''), AtWhile], job_console = []\<rparr>"
    by simp
  from tc hc have r3: "svg_queue ?c = []" by blast
  from tc hd have r4: "svg_queue (run sample_render sample_schedule (start sample_tasks 2)) = []"
    by blast
  from race_run r1 r2 hc hd r4 show ?thesis by simp
qed

end
